theory Spec2Isabelle
  imports Main "HOL-Library.Word"
begin

unbundle bit_operations_syntax

section \<open>The tunnel connection of uds/tunnel/Connection.cpp\<close>

text \<open>
  The development follows the source file function by function. The C++ \<open>int\<close> of the
  handshake arithmetic is a 32-bit word and \<open>Int64\<close> a 64-bit word, read as two's
  complement by \<open>sint\<close>; sizes, lengths, ports and alignments, which the code only
  compares, are mathematical integers. A byte buffer is a list of characters, a null
  pointer is \<open>None\<close>.
\<close>

type_synonym Int32 = "32 word"
type_synonym Int64 = "64 word"

subsection \<open>The C library functions the codec calls\<close>

text \<open>\<open>tolower\<close> and \<open>toupper\<close> of the C locale: only the 26 ASCII letters move.\<close>

definition tolower :: "char \<Rightarrow> char" where
  "tolower c = (let n = of_char c :: nat in if 65 \<le> n \<and> n \<le> 90 then char_of (n + 32) else c)"

definition toupper :: "char \<Rightarrow> char" where
  "toupper c = (let n = of_char c :: nat in if 97 \<le> n \<and> n \<le> 122 then char_of (n - 32) else c)"

text \<open>\<open>isspace\<close> of the C locale: space, and the controls from tab to carriage return.\<close>

definition isspace :: "char \<Rightarrow> bool" where
  "isspace c = (let n = of_char c :: nat in n = 32 \<or> (9 \<le> n \<and> n \<le> 13))"

text \<open>The value of a character as a digit, as \<open>strtoll\<close> reads it in any base up to 36.\<close>

definition digit_value :: "char \<Rightarrow> nat option" where
  "digit_value c =
     (let n = of_char c :: nat in
      if 48 \<le> n \<and> n \<le> 57 then Some (n - 48)
      else if 97 \<le> n \<and> n \<le> 122 then Some (n - 87)
      else if 65 \<le> n \<and> n \<le> 90 then Some (n - 55)
      else None)"

definition is_xdigit :: "char \<Rightarrow> bool" where
  "is_xdigit c = (case digit_value c of None \<Rightarrow> False | Some d \<Rightarrow> d < 16)"

definition hex_number :: "string \<Rightarrow> nat" where
  "hex_number cs = foldl (\<lambda>a c. 16 * a + the (digit_value c)) 0 cs"

definition LLONG_MAX :: int where
  "LLONG_MAX = 2 ^ 63 - 1"

definition LLONG_MIN :: int where
  "LLONG_MIN = - (2 ^ 63)"

text \<open>
  \<open>strtoll(s, NULL, 16)\<close> on the characters \<open>s\<close>: white space is skipped, one sign and
  one \<open>0x\<close> or \<open>0X\<close> are accepted, the longest run of hexadecimal digits is the number
  (zero when there is none), and the result saturates at the ends of \<open>long long\<close>.

  The scan of \<open>strtoll\<close> ends at the first character that cannot continue the
  number; the end of the list \<open>s\<close> stands for the zero byte that ends a C string.
\<close>

definition strip_0x :: "string \<Rightarrow> string" where
  "strip_0x s =
     (case s of
        c0 # c1 # rest \<Rightarrow>
          if c0 = CHR ''0'' \<and> (c1 = CHR ''x'' \<or> c1 = CHR ''X'') then rest else s
      | _ \<Rightarrow> s)"

definition strtoll16 :: "string \<Rightarrow> int" where
  "strtoll16 s =
     (let s1 = dropWhile isspace s;
          neg = (case s1 of [] \<Rightarrow> False | c # _ \<Rightarrow> c = CHR ''-'');
          s2 = (case s1 of [] \<Rightarrow> [] | c # rest \<Rightarrow>
                  if c = CHR ''-'' \<or> c = CHR ''+'' then rest else s1);
          v = int (hex_number (takeWhile is_xdigit (strip_0x s2)))
      in if neg then max (- v) LLONG_MIN else min v LLONG_MAX)"

text \<open>
  \<open>sprintf\<close> with \<open>%04X\<close> and \<open>%08X\<close>: the unsigned value in upper-case hexadecimal,
  padded with zeros to at least the width, never cut.
\<close>

definition hex_char :: "nat \<Rightarrow> char" where
  "hex_char d = (if d < 10 then char_of (48 + d) else char_of (55 + d))"

fun hex_digits :: "nat \<Rightarrow> nat \<Rightarrow> string" where
  "hex_digits 0 n = []"
| "hex_digits (Suc k) n = hex_digits k (n div 16) @ [hex_char (n mod 16)]"

fun ndigits16 :: "nat \<Rightarrow> nat" where
  "ndigits16 n = (if n < 16 then 1 else Suc (ndigits16 (n div 16)))"

declare ndigits16.simps [simp del]

definition sprintf_0X :: "nat \<Rightarrow> Int32 \<Rightarrow> string" where
  "sprintf_0X width v = hex_digits (max width (ndigits16 (unat v))) (unat v)"

subsection \<open>The random source and the stream\<close>

text \<open>
  Modelled from the spec: \<open>RandomNext\<close> and \<open>RandomAscii\<close> are declared outside this
  file. The values they return are taken as they come: \<open>RandomNext r k lo hi\<close> is what
  the \<open>k\<close>-th call of \<open>RandomNext(lo, hi)\<close> returns and \<open>RandomAscii r k\<close> what the
  \<open>k\<close>-th call of \<open>RandomAscii()\<close> returns.
\<close>

record random =
  RandomNext :: "nat \<Rightarrow> int \<Rightarrow> int \<Rightarrow> int"
  RandomAscii :: "nat \<Rightarrow> char"

text \<open>
  Modelled from the spec: the \<open>Stream\<close> that \<open>PackPlaintextHeaders\<close> writes to is
  declared outside this file. It takes the bytes at its end when it accepts writes
  (``fails only if the stream refuses writes'').
\<close>

record Stream =
  CanWrite :: bool
  GetBuffer :: string

definition GetPosition :: "Stream \<Rightarrow> int" where
  "GetPosition stream = int (length (GetBuffer stream))"

definition Write :: "Stream \<Rightarrow> string \<Rightarrow> bool \<times> Stream" where
  "Write stream bytes =
     (if CanWrite stream then (True, stream\<lparr>GetBuffer := GetBuffer stream @ bytes\<rparr>)
      else (False, stream))"

subsection \<open>The handshake codec\<close>

definition UINT8_MAX :: int where
  "UINT8_MAX = 255"

text \<open>
  \<open>PackPlaintextHeaders(stream, channelId, alignment)\<close>. \<open>BufferSize\<close> is the size of
  the local array \<open>messages\<close>, a constant declared outside this file. The list
  \<open>messages\<close> is the part of the array that the loop fills; the twelve characters of
  \<open>sprintf\<close> and the character behind them go to the positions from 1 on, and the
  first \<open>messages_size\<close> bytes of the array are written to the stream.
\<close>

definition PackPlaintextHeaders :: "int \<Rightarrow> random \<Rightarrow> Stream \<Rightarrow> Int32 \<Rightarrow> int \<Rightarrow> bool \<times> Stream" where
  "PackPlaintextHeaders BufferSize r stream channelId alignment =
     (if \<not> CanWrite stream then (False, stream)
      else
        let messages_size = RandomNext r 0 (push_bit 1 UINT8_MAX) (min alignment BufferSize);
            messages = map (RandomAscii r) [0..<nat messages_size];
            size32 = (word_of_int messages_size :: Int32);
            printed = sprintf_0X 4 size32
                      @ sprintf_0X 8 (channelId XOR (push_bit 16 size32 OR size32));
            offset = length printed
        in if offset < 1 then (False, stream)
           else
             let cased = map (\<lambda>i. if RandomNext r (Suc i) 0 1 \<noteq> 0
                                    then tolower (printed ! i) else toupper (printed ! i))
                             [0..<offset];
                 messages' = take 1 messages @ cased @ [RandomAscii r (nat messages_size)]
                             @ drop (offset + 2) messages
             in Write stream (take (nat messages_size) messages'))"

text \<open>
  \<open>UnpackPlaintextLength(buffer, offset, length)\<close>. The buffer is the bytes that the
  pointer leads to; \<open>n\<close> is the argument \<open>length\<close>.

  The source copies four characters into \<open>char len[4]\<close> and eight into \<open>char id[8]\<close>
  and hands each array to \<open>strtoll\<close> without a terminator, so the scan does not end
  with the array: it goes on through the memory that lies behind it. What lies there is
  decided by the compiler and by earlier calls, not by the arguments. It is a parameter
  of the model: \<open>after_len\<close> and \<open>after_id\<close> are the characters found in memory behind
  \<open>len\<close> and behind \<open>id\<close>, up to the first zero byte. (Where \<open>id\<close> lies directly
  before \<open>len\<close>, \<open>after_id\<close> begins with the four characters of \<open>len\<close>; where \<open>len\<close>
  lies directly before \<open>id\<close>, \<open>after_len\<close> begins with what an earlier call left in
  \<open>id\<close>.)
\<close>

definition UnpackPlaintextLength :: "string \<Rightarrow> string \<Rightarrow> string option \<Rightarrow> int \<Rightarrow> int \<Rightarrow> Int64" where
  "UnpackPlaintextLength after_len after_id buffer offset n =
     (case buffer of
        None \<Rightarrow> 0
      | Some bytes \<Rightarrow>
          if offset < 0 \<or> n < 1 then 0
          else
            let data = drop (nat offset) bytes in
            if 13 > n then 0
            else
              let len = take 4 (drop 1 data);
                  messages_size = (word_of_int (strtoll16 (len @ after_len)) :: Int64)
              in if 13 \<ge> sint messages_size then 0
                 else
                   let id = take 8 (drop 5 data);
                       channelid = (word_of_int (strtoll16 (id @ after_id)) :: Int64);
                       channelid' = channelid XOR (push_bit 16 messages_size OR messages_size)
                   in push_bit 32 channelid' OR messages_size)"

subsection \<open>What lies outside the file\<close>

text \<open>
  Transports, sockets, the resolver, timers and the allocator are declared outside this
  file. The model keeps what the code does with them: every call that leaves the file
  is written to a trace, in order, and what the call returns is asked from the
  environment. \<open>ok e k\<close> says whether the call issued when the trace held \<open>k\<close> entries
  succeeded (a \<open>bool\<close> that is true, a pointer that is not null, an error code that is
  clear), so the same call may succeed at one time and fail at another.
\<close>

record ITransmission =
  tid :: nat
  io_context :: "nat option"

record endpoint =
  is_unspecified :: bool
  is_multicast :: bool
  is_v4 :: bool
  port :: int

record AppConfiguration =
  Alignment :: int
  Domain :: bool
  IP :: string
  Port :: int
  KeepAlived :: bool
  Turbo :: bool
  FastOpen :: bool

type_synonym handler = nat

datatype lambda =
    Listen_lambda
  | ConnectRemoteSocket_lambda
  | RemoteSocketToOutboundSocket_lambda
  | InboundSocketToRemoteSocket_lambda
  | SendToRemoteSocket_lambda
  | SendToOutboundSocket_lambda
  | HandshakeServer_lambda handler Int32
  | HandshakeClient_lambda handler
  | KeepAlivedReadCycle_lambda ITransmission
  | KeepAlivedSendCycle_timer_lambda ITransmission
  | KeepAlivedSendCycle_write_lambda ITransmission

datatype effect =
    call_make_shared_alloc int
  | new_resolver nat
  | new_socket nat
  | call_open nat bool
  | call_set_option nat bool bool
  | call_GetAddressByHostName string int lambda
  | call_async_connect nat endpoint lambda
  | call_async_read_some nat int lambda
  | call_async_write nat "string option" int lambda
  | call_ReadAsync ITransmission lambda
  | call_WriteAsync ITransmission "string option" int int lambda
  | call_Close ITransmission
  | call_Closesocket nat
  | call_cancel nat
  | call_SetTimeout nat int lambda
  | call_ClearTimeout "nat option"
  | fire_DisposedEvent nat

text \<open>
  Modelled from the spec: \<open>ClearTimeout\<close> is declared outside this file, and whether it
  also resets the reference it is given is not visible here; \<open>ClearTimeout_resets\<close>
  covers both. \<open>ToEndPoint\<close> is the conversion of an address and a port to an endpoint,
  also declared outside.
\<close>

record env =
  ok :: "nat \<Rightarrow> bool"
  ClearTimeout_resets :: bool
  ToEndPoint :: "string \<Rightarrow> int \<Rightarrow> endpoint"
  rnd :: random

subsection \<open>The Connection\<close>

text \<open>
  The fields of the class. \<open>ECONNECTION_MSS\<close> is the constant member that the
  constructor overwrites through \<open>constantof\<close>. A socket, a resolver, a timer and a
  handler of \<open>DisposedEvent\<close> are named by a number; \<open>buffers_'\<close> holds the size of
  the region it points to. A member \<open>x_\<close> of the class is the field \<open>x_'\<close> here, since
  a name cannot end with an underscore.
\<close>

record Connection =
  Id :: int
  disposed_' :: bool
  available_' :: bool
  configuration_' :: "AppConfiguration option"
  inbound_' :: "ITransmission option"
  outbound_' :: "ITransmission option"
  remote_' :: "nat option"
  resolver_' :: "nat option"
  buffers_' :: "int option"
  timeout_' :: "nat option"
  DisposedEvent :: "nat option"
  ECONNECTION_MSS :: int

text \<open>
  The Connection together with its surroundings: the trace of the calls issued so far,
  the timers that are pending, how often the body of \<open>Dispose\<close> has run, and whether
  the process has stopped on a null pointer.
\<close>

record system = Connection +
  trace :: "effect list"
  timers :: "nat set"
  disposals :: nat
  crashed :: bool

definition emit :: "effect \<Rightarrow> system \<Rightarrow> system" where
  "emit x s = s\<lparr>trace := trace s @ [x]\<rparr>"

definition answer :: "env \<Rightarrow> system \<Rightarrow> bool" where
  "answer e s = ok e (length (trace s))"

text \<open>Modelled from the spec: the default of \<open>ECONNECTION_MSS\<close>, declared outside this file.\<close>

definition ECONNECTION_MSS_default :: int where
  "ECONNECTION_MSS_default = 65535"

definition new_Connection ::
  "AppConfiguration option \<Rightarrow> int \<Rightarrow> ITransmission option \<Rightarrow> ITransmission option \<Rightarrow> system" where
  "new_Connection configuration ident inbound outbound =
     \<lparr>Id = ident, disposed_' = False, available_' = False, configuration_' = configuration,
      inbound_' = inbound, outbound_' = outbound, remote_' = None, resolver_' = None,
      buffers_' = None, timeout_' = None, DisposedEvent = None,
      ECONNECTION_MSS =
        (case configuration of
           None \<Rightarrow> ECONNECTION_MSS_default
         | Some c \<Rightarrow>
             let alignment = Alignment c in
             if alignment \<ge> push_bit 1 UINT8_MAX \<and> alignment \<le> ECONNECTION_MSS_default
             then alignment else ECONNECTION_MSS_default),
      trace = [], timers = {}, disposals = 0, crashed = False\<rparr>"

definition GetContext :: "system \<Rightarrow> nat option" where
  "GetContext s =
     (case inbound_' s of
        Some inbound \<Rightarrow> io_context inbound
      | None \<Rightarrow> (case outbound_' s of Some outbound \<Rightarrow> io_context outbound | None \<Rightarrow> None))"

definition IsNone :: "system \<Rightarrow> bool" where
  "IsNone s =
     (if disposed_' s \<or> inbound_' s = None \<or> outbound_' s = None \<or> configuration_' s = None
      then True else False)"

definition IsDisposed :: "system \<Rightarrow> bool" where
  "IsDisposed s = (IsNone s \<or> remote_' s = None \<or> buffers_' s = None)"

definition Available :: "system \<Rightarrow> bool" where
  "Available s = (available_' s \<and> \<not> IsDisposed s)"

definition ClearTimeout :: "env \<Rightarrow> system \<Rightarrow> system" where
  "ClearTimeout e s =
     (emit (call_ClearTimeout (timeout_' s)) s)
       \<lparr>timers := timers s - set_option (timeout_' s),
        timeout_' := (if ClearTimeout_resets e then None else timeout_' s)\<rparr>"

text \<open>
  \<open>Dispose\<close>, block by block: each member is moved out and, when it was set, closed;
  then all members are reset, the timer is cleared, and \<open>DisposedEvent\<close> is moved out
  and called when it was set. Only the call that finds \<open>disposed_\<close> false does this.
\<close>

definition Dispose_inbound :: "system \<Rightarrow> system" where
  "Dispose_inbound s =
     (case inbound_' s of
        Some inbound \<Rightarrow> emit (call_Close inbound) (s\<lparr>inbound_' := None\<rparr>)
      | None \<Rightarrow> s)"

definition Dispose_outbound :: "system \<Rightarrow> system" where
  "Dispose_outbound s =
     (case outbound_' s of
        Some outbound \<Rightarrow> emit (call_Close outbound) (s\<lparr>outbound_' := None\<rparr>)
      | None \<Rightarrow> s)"

definition Dispose_remote :: "system \<Rightarrow> system" where
  "Dispose_remote s =
     (case remote_' s of
        Some remote \<Rightarrow> emit (call_Closesocket remote) (s\<lparr>remote_' := None\<rparr>)
      | None \<Rightarrow> s)"

definition Dispose_resolver :: "system \<Rightarrow> system" where
  "Dispose_resolver s =
     (case resolver_' s of
        Some resolver \<Rightarrow> emit (call_cancel resolver) (s\<lparr>resolver_' := None\<rparr>)
      | None \<Rightarrow> s)"

definition Dispose_reset :: "system \<Rightarrow> system" where
  "Dispose_reset s =
     s\<lparr>buffers_' := None, remote_' := None, inbound_' := None, outbound_' := None,
       resolver_' := None\<rparr>"

definition Dispose_DisposedEvent :: "system \<Rightarrow> system" where
  "Dispose_DisposedEvent s =
     (case DisposedEvent s of
        Some disposedEvent \<Rightarrow>
          emit (fire_DisposedEvent disposedEvent) (s\<lparr>DisposedEvent := None\<rparr>)
      | None \<Rightarrow> s)"

definition Dispose :: "env \<Rightarrow> system \<Rightarrow> system" where
  "Dispose e s =
     (if disposed_' s then s
      else
        let s0 = s\<lparr>disposed_' := True, disposals := Suc (disposals s)\<rparr>;
            s1 = Dispose_inbound s0;
            s2 = Dispose_outbound s1;
            s3 = Dispose_remote s2;
            s4 = Dispose_resolver s3;
            s5 = Dispose_reset s4;
            s6 = ClearTimeout e s5
        in Dispose_DisposedEvent s6)"

definition Close :: "env \<Rightarrow> system \<Rightarrow> system" where
  "Close e s = Dispose e s"

definition make_shared_alloc :: "env \<Rightarrow> int \<Rightarrow> system \<Rightarrow> int option \<times> system" where
  "make_shared_alloc e n s =
     (if answer e s then Some n else None, emit (call_make_shared_alloc n) s)"

definition RemoteSocketToOutboundSocket :: "env \<Rightarrow> system \<Rightarrow> bool \<times> system" where
  "RemoteSocketToOutboundSocket e s =
     (if disposed_' s then (False, s)
      else case remote_' s of
        None \<Rightarrow> (False, s)
      | Some socket \<Rightarrow>
          (case buffers_' s of
             None \<Rightarrow> (False, s)
           | Some buffers \<Rightarrow>
               (True, emit (call_async_read_some socket (ECONNECTION_MSS s)
                              RemoteSocketToOutboundSocket_lambda) s)))"

definition InboundSocketToRemoteSocket :: "env \<Rightarrow> system \<Rightarrow> bool \<times> system" where
  "InboundSocketToRemoteSocket e s =
     (if disposed_' s then (False, s)
      else case inbound_' s of
        None \<Rightarrow> (False, s)
      | Some socket \<Rightarrow>
          (answer e s, emit (call_ReadAsync socket InboundSocketToRemoteSocket_lambda) s))"

definition SendToRemoteSocket :: "env \<Rightarrow> string option \<Rightarrow> int \<Rightarrow> system \<Rightarrow> bool \<times> system" where
  "SendToRemoteSocket e buffer n s =
     (if disposed_' s \<or> buffer = None \<or> n < 1 then (False, s)
      else case remote_' s of
        None \<Rightarrow> (False, s)
      | Some socket \<Rightarrow>
          (True, emit (call_async_write socket buffer n SendToRemoteSocket_lambda) s))"

definition SendToOutboundSocket :: "env \<Rightarrow> string option \<Rightarrow> int \<Rightarrow> system \<Rightarrow> bool \<times> system" where
  "SendToOutboundSocket e buffer n s =
     (if disposed_' s \<or> buffer = None \<or> n < 1 then (False, s)
      else case outbound_' s of
        None \<Rightarrow> (False, s)
      | Some socket \<Rightarrow>
          (answer e s, emit (call_WriteAsync socket buffer 0 n SendToOutboundSocket_lambda) s))"

definition KeepAlivedReadCycle :: "env \<Rightarrow> ITransmission option \<Rightarrow> system \<Rightarrow> bool \<times> system" where
  "KeepAlivedReadCycle e transmission s =
     (if disposed_' s then (False, s)
      else case transmission of
        None \<Rightarrow> (False, s)
      | Some network \<Rightarrow>
          (answer e s, emit (call_ReadAsync network (KeepAlivedReadCycle_lambda network)) s))"

text \<open>
  \<open>SetTimeout\<close> gives a new timer, named by the position of the call in the trace, or
  null; a new timer is pending.
\<close>

definition SetTimeout :: "env \<Rightarrow> lambda \<Rightarrow> int \<Rightarrow> system \<Rightarrow> nat option \<times> system" where
  "SetTimeout e handler ms s =
     (let h = length (trace s); s1 = emit (call_SetTimeout h ms handler) s
      in if answer e s then (Some h, s1\<lparr>timers := insert h (timers s1)\<rparr>) else (None, s1))"

definition KeepAlivedSendCycle :: "env \<Rightarrow> ITransmission option \<Rightarrow> system \<Rightarrow> bool \<times> system" where
  "KeepAlivedSendCycle e transmission s =
     (if disposed_' s then (False, s)
      else case transmission of
        None \<Rightarrow> (False, s)
      | Some network \<Rightarrow>
          (case GetContext s of
             None \<Rightarrow> (False, s)
           | Some context \<Rightarrow>
               let s1 = (if timeout_' s \<noteq> None then ClearTimeout e s else s);
                   ms = RandomNext (rnd e) (length (trace s1)) 100 500;
                   (timeout, s2) = SetTimeout e (KeepAlivedSendCycle_timer_lambda network) ms s1;
                   s3 = s2\<lparr>timeout_' := timeout\<rparr>
               in (timeout_' s3 \<noteq> None, s3)))"

text \<open>
  \<open>EstablishRemoteSocket\<close> reads \<open>configuration_->KeepAlived\<close> without a test of the
  pointer: with a null configuration the process stops there.
\<close>

definition EstablishRemoteSocket :: "env \<Rightarrow> system \<Rightarrow> bool \<times> system" where
  "EstablishRemoteSocket e s =
     (let (a1, s1) = InboundSocketToRemoteSocket e s;
          (available, s2) = (if a1 then RemoteSocketToOutboundSocket e s1 else (False, s1))
      in if available then
           (case configuration_' s2 of
              None \<Rightarrow> (False, s2\<lparr>crashed := True\<rparr>)
            | Some configuration \<Rightarrow>
                if KeepAlived configuration then
                  (let (k1, s3) = KeepAlivedReadCycle e (outbound_' s2) s2
                   in if k1 then KeepAlivedSendCycle e (inbound_' s3) s3 else (False, s3))
                else (available, s2))
         else (available, s2))"

text \<open>
  Modelled from the spec: \<open>IPEndPoint::MinPort\<close> and \<open>IPEndPoint::MaxPort\<close> are declared
  outside this file; the ports accepted are those in \<open>(0, 65535]\<close>.
\<close>

definition MinPort :: int where
  "MinPort = 0"

definition MaxPort :: int where
  "MaxPort = 65535"

definition NewRemoteSocket ::
  "env \<Rightarrow> AppConfiguration option \<Rightarrow> nat option \<Rightarrow> endpoint \<Rightarrow> system \<Rightarrow> nat option \<times> system" where
  "NewRemoteSocket e configuration context remoteEP s =
     (case (context, configuration) of
        (Some ctx, Some cfg) \<Rightarrow>
          if is_unspecified remoteEP \<or> is_multicast remoteEP then (None, s)
          else if port remoteEP \<le> MinPort \<or> port remoteEP > MaxPort then (None, s)
          else
            let socket = length (trace s); made = answer e s; s1 = emit (new_socket socket) s
            in if \<not> made then (None, s1)
               else
                 let opened = answer e s1; s2 = emit (call_open socket (is_v4 remoteEP)) s1
                 in if \<not> opened then (None, s2)
                    else (Some socket, emit (call_set_option socket (Turbo cfg) (FastOpen cfg)) s2)
      | _ \<Rightarrow> (None, s))"

definition ConnectRemoteSocket :: "env \<Rightarrow> endpoint \<Rightarrow> system \<Rightarrow> bool \<times> system" where
  "ConnectRemoteSocket e remoteEP s =
     (let (socket, s1) = NewRemoteSocket e (configuration_' s) (GetContext s) remoteEP s
      in case socket of
           None \<Rightarrow> (False, s1)
         | Some sock \<Rightarrow>
             (True, (emit (call_async_connect sock remoteEP ConnectRemoteSocket_lambda) s1)
                      \<lparr>remote_' := Some sock\<rparr>))"

definition Listen :: "env \<Rightarrow> nat option \<Rightarrow> system \<Rightarrow> bool \<times> system" where
  "Listen e network s =
     (if disposed_' s \<or> buffers_' s \<noteq> None then (False, s)
      else
        let (buffers, s0) = make_shared_alloc e (ECONNECTION_MSS s) s;
            s1 = s0\<lparr>buffers_' := buffers\<rparr>
        in case network of
             Some socket \<Rightarrow>
               let s2 = s1\<lparr>remote_' := Some socket\<rparr>;
                   (available, s3) = EstablishRemoteSocket e s2;
                   s4 = (if crashed s3 then s3 else s3\<lparr>available_' := available\<rparr>)
               in (available, s4)
           | None \<Rightarrow>
               let context = GetContext s1
               in if IsNone s1 \<or> remote_' s1 \<noteq> None \<or> context = None then (False, s1)
                  else
                    let resolver = (if answer e s1 then Some (length (trace s1)) else None);
                        s2 = (emit (new_resolver (length (trace s1))) s1)\<lparr>resolver_' := resolver\<rparr>
                    in if resolver_' s2 = None then (False, s2)
                       else case configuration_' s2 of
                              None \<Rightarrow> (False, s2\<lparr>crashed := True\<rparr>)
                            | Some configuration \<Rightarrow>
                                if Domain configuration then
                                  (True, emit (call_GetAddressByHostName (IP configuration)
                                                 (Port configuration) Listen_lambda) s2)
                                else
                                  ConnectRemoteSocket e
                                    (ToEndPoint e (IP configuration) (Port configuration)) s2)"

subsection \<open>The completion handlers\<close>

text \<open>
  Each lambda that the Connection hands to the outside is a function of the arguments
  it is called back with. A default-constructed endpoint is the unspecified IPv4 address
  with port 0.
\<close>

text \<open>
  \<open>std::max<int>(ec ? -1 : sz, -1)\<close>: the conditional has the type \<open>size_t\<close> of
  \<open>sz\<close>, a 64-bit word in which \<open>-1\<close> is all ones; as an argument of \<open>max<int>\<close> it
  is cut to its lower 32 bits and read as a signed number.
\<close>

definition max_int_of_size_t :: "64 word \<Rightarrow> int" where
  "max_int_of_size_t v = max (sint (ucast v :: Int32)) (- 1)"

definition default_endpoint :: endpoint where
  "default_endpoint = \<lparr>is_unspecified = True, is_multicast = False, is_v4 = True, port = 0\<rparr>"

definition run_Listen_lambda :: "env \<Rightarrow> endpoint option \<Rightarrow> system \<Rightarrow> system" where
  "run_Listen_lambda e ep s =
     (let remoteEP = (case ep of Some p \<Rightarrow> p | None \<Rightarrow> default_endpoint)
      in snd (ConnectRemoteSocket e remoteEP s))"

definition run_ConnectRemoteSocket_lambda :: "env \<Rightarrow> bool \<Rightarrow> system \<Rightarrow> system" where
  "run_ConnectRemoteSocket_lambda e ec s =
     (let s1 = (if \<not> ec then
                  (let (available, s') = EstablishRemoteSocket e s
                   in if crashed s' then s' else s'\<lparr>available_' := available\<rparr>)
                else s)
      in if crashed s1 then s1
         else if \<not> available_' s1 then Close e s1 else s1)"

definition run_RemoteSocketToOutboundSocket_lambda ::
  "env \<Rightarrow> string \<Rightarrow> bool \<Rightarrow> 64 word \<Rightarrow> system \<Rightarrow> system" where
  "run_RemoteSocketToOutboundSocket_lambda e buffers ec sz s =
     (let n = max_int_of_size_t (if ec then - 1 else sz);
          (sent, s1) = SendToOutboundSocket e (Some buffers) n s
      in if \<not> sent then Close e s1 else s1)"

definition run_InboundSocketToRemoteSocket_lambda ::
  "env \<Rightarrow> string option \<Rightarrow> int \<Rightarrow> system \<Rightarrow> system" where
  "run_InboundSocketToRemoteSocket_lambda e buffers n s =
     (let (sent, s1) = SendToRemoteSocket e buffers n s
      in if \<not> sent then Close e s1 else s1)"

definition run_SendToRemoteSocket_lambda :: "env \<Rightarrow> bool \<Rightarrow> 64 word \<Rightarrow> system \<Rightarrow> system" where
  "run_SendToRemoteSocket_lambda e ec sz s =
     (let n = max_int_of_size_t (if ec then - 1 else sz)
      in if n < 1 then Close e s
         else let (armed, s1) = InboundSocketToRemoteSocket e s
              in if \<not> armed then Close e s1 else s1)"

definition run_SendToOutboundSocket_lambda :: "env \<Rightarrow> bool \<Rightarrow> system \<Rightarrow> system" where
  "run_SendToOutboundSocket_lambda e success s =
     (if \<not> success then Close e s
      else let (armed, s1) = RemoteSocketToOutboundSocket e s
           in if \<not> armed then Close e s1 else s1)"

definition run_KeepAlivedReadCycle_lambda ::
  "env \<Rightarrow> ITransmission \<Rightarrow> int \<Rightarrow> system \<Rightarrow> system" where
  "run_KeepAlivedReadCycle_lambda e network n s =
     (if n < 1 then Close e s
      else snd (KeepAlivedReadCycle e (Some network) s))"

definition run_KeepAlivedSendCycle_write_lambda ::
  "env \<Rightarrow> ITransmission \<Rightarrow> bool \<Rightarrow> system \<Rightarrow> system" where
  "run_KeepAlivedSendCycle_write_lambda e network success s =
     (let (success', s1) = (if success then KeepAlivedSendCycle e (Some network) s else (success, s))
      in if \<not> success' then Close e s1 else s1)"

definition run_KeepAlivedSendCycle_timer_lambda :: "env \<Rightarrow> ITransmission \<Rightarrow> system \<Rightarrow> system" where
  "run_KeepAlivedSendCycle_timer_lambda e network s =
     (let s1 = (if timeout_' s \<noteq> None then ClearTimeout e s else s);
          (messages, s2) = make_shared_alloc e 64 s1
      in case messages of
           None \<Rightarrow> Close e s2
         | Some _ \<Rightarrow>
             let k = length (trace s2);
                 packet_size = RandomNext (rnd e) k 8 64;
                 packet = map (\<lambda>i. RandomAscii (rnd e) (k + i)) [0..<nat packet_size];
                 accepted = answer e s2;
                 s3 = emit (call_WriteAsync network (Some packet) 0 packet_size
                              (KeepAlivedSendCycle_write_lambda network)) s2
             in if \<not> accepted then Close e s3 else s3)"

subsection \<open>Runs of a Connection\<close>

text \<open>
  What may happen to a Connection, one event at a time, as the completions are
  serialized on its context: a call of a public method, an assignment to the public
  member \<open>DisposedEvent\<close>, or a completion handler called back with its arguments. A
  timer that fires is no longer pending. Nothing happens to a process that has stopped.
\<close>

datatype action =
    do_Listen "nat option"
  | do_Close
  | do_Dispose
  | set_DisposedEvent "nat option"
  | on_resolved "endpoint option"
  | on_connected bool
  | on_remote_read string bool "64 word"
  | on_inbound_read "string option" int
  | on_remote_written bool "64 word"
  | on_outbound_written bool
  | on_keepalive_read ITransmission int
  | on_timer nat ITransmission
  | on_keepalive_written ITransmission bool

fun step :: "env \<Rightarrow> system \<Rightarrow> action \<Rightarrow> system" where
  "step e s (do_Listen network) = snd (Listen e network s)"
| "step e s do_Close = Close e s"
| "step e s do_Dispose = Dispose e s"
| "step e s (set_DisposedEvent h) = s\<lparr>DisposedEvent := h\<rparr>"
| "step e s (on_resolved ep) = run_Listen_lambda e ep s"
| "step e s (on_connected ec) = run_ConnectRemoteSocket_lambda e ec s"
| "step e s (on_remote_read buffers ec sz) = run_RemoteSocketToOutboundSocket_lambda e buffers ec sz s"
| "step e s (on_inbound_read buffers n) = run_InboundSocketToRemoteSocket_lambda e buffers n s"
| "step e s (on_remote_written ec sz) = run_SendToRemoteSocket_lambda e ec sz s"
| "step e s (on_outbound_written success) = run_SendToOutboundSocket_lambda e success s"
| "step e s (on_keepalive_read network n) = run_KeepAlivedReadCycle_lambda e network n s"
| "step e s (on_timer h network) =
     run_KeepAlivedSendCycle_timer_lambda e network (s\<lparr>timers := timers s - {h}\<rparr>)"
| "step e s (on_keepalive_written network success) =
     run_KeepAlivedSendCycle_write_lambda e network success s"

definition next_state :: "env \<Rightarrow> system \<Rightarrow> action \<Rightarrow> system" where
  "next_state e s a = (if crashed s then s else step e s a)"

definition run :: "env \<Rightarrow> system \<Rightarrow> action list \<Rightarrow> system" where
  "run e s as = foldl (next_state e) s as"

text \<open>How often \<open>DisposedEvent\<close> has fired.\<close>

definition fired :: "system \<Rightarrow> nat" where
  "fired s = length (filter (\<lambda>x. case x of fire_DisposedEvent _ \<Rightarrow> True | _ \<Rightarrow> False) (trace s))"

subsection \<open>The handshake on a transport\<close>

text \<open>
  The static functions issue at most one call on the transport; they return what they
  return in the source together with the calls they issued. The \<open>MemoryStream\<close> of
  \<open>HandshakeServer\<close> is fresh. Modelled from the spec: \<open>MemoryStream\<close> is declared
  outside this file; a fresh one is empty and accepts writes.
\<close>

definition MemoryStream :: Stream where
  "MemoryStream = \<lparr>CanWrite = True, GetBuffer = []\<rparr>"

definition HandshakeServer ::
  "int \<Rightarrow> env \<Rightarrow> ITransmission option \<Rightarrow> int \<Rightarrow> Int32 \<Rightarrow> handler option \<Rightarrow> bool \<times> effect list" where
  "HandshakeServer BufferSize e transmission alignment channelId handler =
     (case (transmission, handler) of
        (Some ctransmission, Some callback) \<Rightarrow>
          if alignment < push_bit 1 UINT8_MAX \<or> channelId = 0 then (False, [])
          else
            let (packed, messages) =
                  PackPlaintextHeaders BufferSize (rnd e) MemoryStream channelId alignment
            in if \<not> packed then (False, [])
               else (ok e 0,
                     [call_WriteAsync ctransmission (Some (GetBuffer messages)) 0
                        (GetPosition messages) (HandshakeServer_lambda callback channelId)])
      | _ \<Rightarrow> (False, []))"

definition run_HandshakeServer_lambda :: "handler \<Rightarrow> Int32 \<Rightarrow> bool \<Rightarrow> handler \<times> bool \<times> Int32" where
  "run_HandshakeServer_lambda callback channelId success = (callback, success, channelId)"

definition HandshakeClient ::
  "env \<Rightarrow> ITransmission option \<Rightarrow> handler option \<Rightarrow> bool \<times> effect list" where
  "HandshakeClient e transmission handler =
     (case (transmission, handler) of
        (Some ctransmission, Some callback) \<Rightarrow>
          (ok e 0, [call_ReadAsync ctransmission (HandshakeClient_lambda callback)])
      | _ \<Rightarrow> (False, []))"

text \<open>
  The handler that \<open>HandshakeClient\<close> gives to \<open>ReadAsync\<close>, with the memory behind
  the two arrays of \<open>UnpackPlaintextLength\<close> at the time it runs. It returns the
  callback together with the arguments it calls it with.
\<close>

definition run_HandshakeClient_lambda ::
  "string \<Rightarrow> string \<Rightarrow> handler \<Rightarrow> string option \<Rightarrow> int \<Rightarrow> handler \<times> bool \<times> Int32" where
  "run_HandshakeClient_lambda after_len after_id callback buffer n =
     (if buffer = None \<or> n < 1 then (callback, False, 0)
      else
        let v = UnpackPlaintextLength after_len after_id buffer 0 n
        in if v = 0 then (callback, False, 0)
           else
             let messages_size = (ucast v :: Int32)
             in if sint messages_size \<noteq> n then (callback, False, 0)
                else
                  let channelId = (ucast (signed_drop_bit 32 v) :: Int32)
                  in if channelId = 0 then (callback, False, 0)
                     else (callback, True, channelId))"


definition AcceptAsync_outbound ::
  "env \<Rightarrow> ITransmission option \<Rightarrow> handler option \<Rightarrow> bool \<times> effect list" where
  "AcceptAsync_outbound e outbound handler = HandshakeClient e outbound handler"

definition ConnectAsync_outbound ::
  "int \<Rightarrow> env \<Rightarrow> ITransmission option \<Rightarrow> int \<Rightarrow> Int32 \<Rightarrow> handler option \<Rightarrow> bool \<times> effect list" where
  "ConnectAsync_outbound BufferSize e outbound alignment channelId handler =
     HandshakeServer BufferSize e outbound alignment channelId handler"

definition ConnectAsync_inbound ::
  "env \<Rightarrow> ITransmission option \<Rightarrow> handler option \<Rightarrow> bool \<times> effect list" where
  "ConnectAsync_inbound e inbound handler = HandshakeClient e inbound handler"

subsection \<open>Notions used in the statements\<close>

text \<open>A character and what \<open>PackPlaintextHeaders\<close> may turn it into: its lower or its upper case.\<close>

definition cased :: "char \<Rightarrow> char \<Rightarrow> bool" where
  "cased c p = (c = tolower p \<or> c = toupper p)"

text \<open>
  The size and the channel id that \<open>UnpackPlaintextLength\<close> decodes: what \<open>strtoll\<close>
  reads from the four characters behind the first byte and the memory behind \<open>len\<close>,
  and what it reads from the eight characters that follow and the memory behind \<open>id\<close>,
  with the size taken out again.
\<close>

definition decoded_size :: "string \<Rightarrow> string \<Rightarrow> int \<Rightarrow> Int64" where
  "decoded_size after_len bytes offset =
     word_of_int (strtoll16 (take 4 (drop 1 (drop (nat offset) bytes)) @ after_len))"

definition decoded_channelid :: "string \<Rightarrow> string \<Rightarrow> string \<Rightarrow> int \<Rightarrow> Int64" where
  "decoded_channelid after_len after_id bytes offset =
     word_of_int (strtoll16 (take 8 (drop 5 (drop (nat offset) bytes)) @ after_id))
       XOR (push_bit 16 (decoded_size after_len bytes offset) OR decoded_size after_len bytes offset)"

text \<open>
  The size field of a frame by itself: its four characters read as a number. This is what
  the decoder reads when a zero byte lies directly behind \<open>len\<close>.
\<close>

definition size_field :: "string \<Rightarrow> int \<Rightarrow> Int64" where
  "size_field bytes offset = decoded_size [] bytes offset"

text \<open>The bytes that \<open>PackPlaintextHeaders\<close> adds to the stream.\<close>

definition packed_bytes :: "int \<Rightarrow> random \<Rightarrow> Stream \<Rightarrow> Int32 \<Rightarrow> int \<Rightarrow> string" where
  "packed_bytes BufferSize r stream channelId alignment =
     drop (length (GetBuffer stream))
       (GetBuffer (snd (PackPlaintextHeaders BufferSize r stream channelId alignment)))"

text \<open>The calls that close or release something, and the firing of \<open>DisposedEvent\<close>.\<close>

definition closing :: "effect \<Rightarrow> bool" where
  "closing x =
     (case x of
        call_Close _ \<Rightarrow> True
      | call_Closesocket _ \<Rightarrow> True
      | call_cancel _ \<Rightarrow> True
      | fire_DisposedEvent _ \<Rightarrow> True
      | _ \<Rightarrow> False)"

text \<open>The calls of the allocator.\<close>

definition allocating :: "effect \<Rightarrow> bool" where
  "allocating x = (case x of call_make_shared_alloc _ \<Rightarrow> True | _ \<Rightarrow> False)"

text \<open>
  What the functions that only arm an operation leave as it is: the members of the
  Connection but \<open>available_\<close> and \<open>timeout_\<close>, and the closing and allocating calls
  of the trace.
\<close>

definition frame ::
  "system \<Rightarrow> (bool \<times> nat \<times> int option \<times> nat option \<times> nat option) \<times>
     (ITransmission option \<times> ITransmission option \<times> AppConfiguration option \<times> nat option \<times> int) \<times>
     effect list \<times> effect list" where
  "frame s =
     ((disposed_' s, disposals s, buffers_' s, remote_' s, resolver_' s),
      (inbound_' s, outbound_' s, configuration_' s, DisposedEvent s, ECONNECTION_MSS s),
      filter closing (trace s), filter allocating (trace s))"

text \<open>
  The disposal invariant: \<open>DisposedEvent\<close> has fired at most as often as the body of
  \<open>Dispose\<close> has run, that is at most once, and \<open>disposed_\<close> is set exactly when it
  has run.
\<close>

definition disposal_inv :: "system \<Rightarrow> bool" where
  "disposal_inv s =
     (fired s \<le> disposals s \<and> disposals s \<le> 1 \<and> (disposed_' s = (disposals s = 1)))"

text \<open>
  The timer invariant: a pending timer is the one \<open>timeout_\<close> refers to, and a
  disposed Connection has none.
\<close>

definition timer_inv :: "system \<Rightarrow> bool" where
  "timer_inv s =
     (timers s \<subseteq> set_option (timeout_' s) \<and> (if disposed_' s then timers s = {} else True))"

text \<open>The part of the state the two invariants speak about.\<close>

definition dview :: "system \<Rightarrow> bool \<times> nat \<times> nat \<times> nat set \<times> nat option \<times> nat option" where
  "dview s = (disposed_' s, disposals s, fired s, timers s, timeout_' s, DisposedEvent s)"

definition conn_inv :: "system \<Rightarrow> bool" where
  "conn_inv s = (disposal_inv s \<and> timer_inv s)"

section \<open>Properties of the handshake codec\<close>

subsection \<open>Hexadecimal text and \<open>strtoll\<close>\<close>

lemma is_xdigit_chars:
  "is_xdigit c \<Longrightarrow> \<not> isspace c \<and> c \<noteq> CHR ''-'' \<and> c \<noteq> CHR ''+'' \<and> c \<noteq> CHR ''x'' \<and> c \<noteq> CHR ''X''"
  by (auto simp: is_xdigit_def digit_value_def isspace_def Let_def split: if_splits)

lemma digit_value_hex_char:
  assumes "d < 16"
  shows "digit_value (hex_char d) = Some d"
    and "digit_value (tolower (hex_char d)) = Some d"
    and "digit_value (toupper (hex_char d)) = Some d"
  using assms by (auto simp: digit_value_def hex_char_def tolower_def toupper_def Let_def)

lemma hex_number_snoc: "hex_number (cs @ [c]) = 16 * hex_number cs + the (digit_value c)"
  by (simp add: hex_number_def)

lemma cased_hex_digits:
  "list_all2 cased cs (hex_digits k n) \<Longrightarrow> hex_number cs = n mod 16 ^ k \<and> (\<forall>c \<in> set cs. is_xdigit c)"
proof (induction k arbitrary: n cs)
  case 0
  then show ?case by (simp add: hex_number_def)
next
  case (Suc k)
  from Suc.prems obtain cs' c where cs: "cs = cs' @ [c]"
    and h: "list_all2 cased cs' (hex_digits k (n div 16))" and c: "cased c (hex_char (n mod 16))"
    by (auto simp: list_all2_append2 list_all2_Cons2)
  have dv: "digit_value c = Some (n mod 16)"
    using c digit_value_hex_char [of "n mod 16"] by (auto simp: cased_def)
  have "n mod (16 * 16 ^ k) = 16 * (n div 16 mod 16 ^ k) + n mod 16"
    by (simp add: mod_mult2_eq)
  with Suc.IH [OF h] dv show ?case
    by (auto simp: cs hex_number_snoc is_xdigit_def)
qed

lemma ndigits16_le: "0 < k \<Longrightarrow> n < 16 ^ k \<Longrightarrow> ndigits16 n \<le> k"
proof (induction k arbitrary: n)
  case 0
  then show ?case by simp
next
  case (Suc k)
  show ?case
  proof (cases "n < 16")
    case True
    then show ?thesis by (simp add: ndigits16.simps)
  next
    case False
    with Suc.prems have "0 < k" by (cases k) auto
    moreover from Suc.prems have "n div 16 < 16 ^ k" by (simp add: less_mult_imp_div_less mult.commute)
    ultimately have "ndigits16 (n div 16) \<le> k" by (rule Suc.IH)
    with False show ?thesis by (subst ndigits16.simps) simp
  qed
qed

lemma strtoll16_xdigits_then:
  assumes x: "\<forall>c \<in> set s. is_xdigit c" and l: "2 \<le> length s"
    and t: "t = [] \<or> \<not> is_xdigit (hd t)"
  shows "strtoll16 (s @ t) = min (int (hex_number s)) LLONG_MAX"
proof -
  obtain c c' cs where s: "s = c # c' # cs"
    using l by (cases s; cases "tl s") auto
  have c: "is_xdigit c" and c': "is_xdigit c'" using x s by simp_all
  have strip: "strip_0x (s @ t) = s @ t"
    using is_xdigit_chars [OF c'] by (simp add: strip_0x_def s)
  have "takeWhile is_xdigit t = []"
    using t by (simp add: takeWhile_eq_Nil_iff)
  then have tw: "takeWhile is_xdigit (s @ t) = s"
    using x by (simp add: takeWhile_append2)
  show ?thesis
    using is_xdigit_chars [OF c] strip tw
    by (simp add: strtoll16_def s)
qed

lemma sprintf_0X_4: "unat v < 65536 \<Longrightarrow> sprintf_0X 4 v = hex_digits 4 (unat v)"
  using ndigits16_le [of 4 "unat v"] by (simp add: sprintf_0X_def max_def)

lemma sprintf_0X_8: "sprintf_0X 8 v = hex_digits 8 (unat v)"
proof -
  have "unat v < 2 ^ 32" using unsigned_less [of v] by simp
  then have "ndigits16 (unat v) \<le> 8" using ndigits16_le [of 8 "unat v"] by simp
  then show ?thesis by (simp add: sprintf_0X_def max_def)
qed

lemma length_hex_digits [simp]: "length (hex_digits k n) = k"
  by (induction k arbitrary: n) auto

lemma decode_bits:
  fixes c s :: Int32
  assumes "unat s < 65536"
  shows "(ucast (c XOR (push_bit 16 s OR s)) :: Int64) XOR (push_bit 16 (ucast s) OR ucast s) = ucast c"
proof -
  have s: "\<And>n. bit s n \<Longrightarrow> n < 16"
  proof -
    fix n assume b: "bit s n"
    have "s < 2 ^ 16" using assms by (simp add: word_less_nat_alt)
    then show "n < 16" using b
      by (metis bit_take_bit_iff less_mask_eq take_bit_eq_mask)
  qed
  show ?thesis
    by (rule bit_word_eqI) (auto simp: bit_simps dest: s)
qed

lemma Pack_shape:
  assumes w: "CanWrite stream"
    and sz: "sz = RandomNext r 0 (push_bit 1 UINT8_MAX) (min alignment BufferSize)"
    and lo: "14 \<le> sz" and hi: "sz \<le> 65535"
    and enc: "enc = channelId XOR (push_bit 16 (word_of_int sz) OR (word_of_int sz :: Int32))"
  shows "\<exists>a cs1 cs2 rest.
           PackPlaintextHeaders BufferSize r stream channelId alignment
             = (True, stream\<lparr>GetBuffer := GetBuffer stream @ a # cs1 @ cs2 @ rest\<rparr>)
           \<and> list_all2 cased cs1 (hex_digits 4 (nat sz))
           \<and> list_all2 cased cs2 (hex_digits 8 (unat enc))
           \<and> int (length (a # cs1 @ cs2 @ rest)) = sz"
proof -
  define size32 where "size32 = (word_of_int sz :: Int32)"
  have u: "unat size32 = nat sz"
    using lo hi by (simp add: size32_def unat_eq_nat_uint uint_word_of_int take_bit_eq_mod)
  define printed where "printed = hex_digits 4 (nat sz) @ hex_digits 8 (unat enc)"
  have pr: "sprintf_0X 4 size32 @ sprintf_0X 8 (channelId XOR (push_bit 16 size32 OR size32)) = printed"
    using u hi lo enc by (simp add: printed_def sprintf_0X_4 sprintf_0X_8 size32_def)
  have lp: "length printed = 12" by (simp add: printed_def)
  define cs where "cs = map (\<lambda>i. if RandomNext r (Suc i) 0 1 \<noteq> 0
                                    then tolower (printed ! i) else toupper (printed ! i)) [0..<12]"
  have lcs: "length cs = 12" by (simp add: cs_def)
  have rel: "list_all2 cased cs printed"
    unfolding list_all2_conv_all_nth lcs lp
  proof (intro conjI allI impI)
    show "(12::nat) = 12" by simp
  next
    fix i :: nat assume "i < 12"
    then show "cased (cs ! i) (printed ! i)"
      by (simp add: cs_def cased_def del: upt_Suc)
  qed
  define messages where "messages = map (RandomAscii r) [0..<nat sz]"
  have lm: "length messages = nat sz" by (simp add: messages_def)
  obtain a ms where m: "messages = a # ms" using lm lo by (cases messages) auto
  define rest where "rest = RandomAscii r (nat sz) # drop 14 messages"
  have all: "take (nat sz) (take 1 messages @ cs @ [RandomAscii r (nat sz)] @ drop (12 + 2) messages)
             = a # take 4 cs @ drop 4 cs @ rest"
    using lm lo lcs by (simp add: m rest_def)
  have pr': "sprintf_0X 4 (word_of_int sz)
             @ sprintf_0X 8 (channelId XOR (push_bit 16 (word_of_int sz) OR word_of_int sz)) = printed"
    using pr by (simp add: size32_def)
  have pack: "PackPlaintextHeaders BufferSize r stream channelId alignment
        = (True, stream\<lparr>GetBuffer := GetBuffer stream @ a # take 4 cs @ drop 4 cs @ rest\<rparr>)"
    apply (simp only: PackPlaintextHeaders_def Let_def sz [symmetric] pr' lp
        cs_def [symmetric] messages_def [symmetric] all)
    apply (simp add: w Write_def)
    done
  have r1: "list_all2 cased (take 4 cs) (hex_digits 4 (nat sz))"
    using list_all2_takeI [OF rel, of 4] by (simp add: printed_def)
  have r2: "list_all2 cased (drop 4 cs) (hex_digits 8 (unat enc))"
    using list_all2_dropI [OF rel, of 4] by (simp add: printed_def)
  have len: "int (length (a # take 4 cs @ drop 4 cs @ rest)) = sz"
    using lm lo lcs by (simp add: rest_def)
  from pack r1 r2 len show ?thesis by blast
qed

lemma Unpack_shape:
  assumes "length cs1 = 4" and "length cs2 = 8" and "13 \<le> n"
  shows "UnpackPlaintextLength after_len after_id (Some (a # cs1 @ cs2 @ rest)) 0 n =
           (let ms = (word_of_int (strtoll16 (cs1 @ after_len)) :: Int64) in
            if sint ms \<le> 13 then 0
            else push_bit 32 (word_of_int (strtoll16 (cs2 @ after_id)) XOR (push_bit 16 ms OR ms))
                 OR ms)"
  using assms by (simp add: UnpackPlaintextLength_def Let_def)

lemma push_bit_32_scast:
  "(push_bit 32 (scast (c :: Int32)) :: Int64) = push_bit 32 (ucast c)"
  by (rule bit_word_eqI) (auto simp: bit_simps)



lemma Unpack_Pack_roundtrip_terminated:
  assumes w: "CanWrite stream"
    and lo: "14 \<le> RandomNext r 0 (push_bit 1 UINT8_MAX) (min alignment BufferSize)"
    and hi: "RandomNext r 0 (push_bit 1 UINT8_MAX) (min alignment BufferSize) \<le> 65535"
    and c: "1 \<le> sint channelId"
    and sz: "messages_size = RandomNext r 0 (push_bit 1 UINT8_MAX) (min alignment BufferSize)"
    and blob: "blob = packed_bytes BufferSize r stream channelId alignment"
    and tl: "after_len = [] \<or> \<not> is_xdigit (hd after_len)"
    and ti: "after_id = [] \<or> \<not> is_xdigit (hd after_id)"
    and v: "v = UnpackPlaintextLength after_len after_id (Some blob) 0 messages_size"
  shows "fst (PackPlaintextHeaders BufferSize r stream channelId alignment)
         \<and> int (length blob) = messages_size
         \<and> v = (push_bit 32 (scast channelId) OR word_of_int messages_size)
         \<and> (ucast (signed_drop_bit 32 v) :: Int32) = channelId
         \<and> sint (ucast v :: Int32) = messages_size"
proof -
  define enc where "enc = channelId XOR (push_bit 16 (word_of_int messages_size) OR (word_of_int messages_size :: Int32))"
  from Pack_shape [OF w sz lo [folded sz] hi [folded sz] enc_def]
  obtain a cs1 cs2 rest where
    pack: "PackPlaintextHeaders BufferSize r stream channelId alignment
             = (True, stream\<lparr>GetBuffer := GetBuffer stream @ a # cs1 @ cs2 @ rest\<rparr>)"
    and r1: "list_all2 cased cs1 (hex_digits 4 (nat messages_size))"
    and r2: "list_all2 cased cs2 (hex_digits 8 (unat enc))"
    and len: "int (length (a # cs1 @ cs2 @ rest)) = messages_size"
    by blast
  have b: "blob = a # cs1 @ cs2 @ rest" by (simp add: blob packed_bytes_def pack)
  have l1: "length cs1 = 4" using list_all2_lengthD [OF r1] by simp
  have l2: "length cs2 = 8" using list_all2_lengthD [OF r2] by simp
  have n1: "hex_number cs1 = nat messages_size" and x1: "\<forall>c\<in>set cs1. is_xdigit c"
    using cased_hex_digits [OF r1] lo hi sz by auto
  have "unat enc < 2 ^ 32" using unsigned_less [of enc] by simp
  then have n2: "hex_number cs2 = unat enc" and x2: "\<forall>c\<in>set cs2. is_xdigit c"
    using cased_hex_digits [OF r2] by auto
  have s1: "strtoll16 (cs1 @ after_len) = messages_size"
    using strtoll16_xdigits_then [OF x1 _ tl] n1 l1 lo hi sz by (simp add: LLONG_MAX_def)
  have "uint enc < 2 ^ 32" using unsigned_less [of enc, where ?'a = int] by simp
  then have s2: "strtoll16 (cs2 @ after_id) = uint enc"
    using strtoll16_xdigits_then [OF x2 _ ti] n2 l2 by (simp add: LLONG_MAX_def)
  define size32 where "size32 = (word_of_int messages_size :: Int32)"
  have u32: "unat size32 = nat messages_size"
    using lo hi sz by (simp add: size32_def unat_eq_nat_uint uint_word_of_int take_bit_eq_mod)
  have ms64: "(word_of_int messages_size :: Int64) = ucast size32"
    using lo hi sz by (simp add: size32_def unsigned_of_int take_bit_eq_mod)
  have sint64: "sint (word_of_int messages_size :: Int64) = messages_size"
    using lo hi sz by (simp add: signed_of_int signed_take_bit_int_eq_self)
  have e64: "(word_of_int (uint enc) :: Int64) = ucast enc"
    by simp
  have dec: "(ucast enc :: Int64) XOR (push_bit 16 (ucast size32) OR ucast size32) = ucast channelId"
    unfolding enc_def size32_def [symmetric]
    by (rule decode_bits) (use u32 hi sz in simp)
  have "13 \<le> messages_size" and not13: "\<not> messages_size \<le> 13" using lo sz by simp_all
  then have "v = (let ms = (word_of_int (strtoll16 (cs1 @ after_len)) :: Int64) in
            if sint ms \<le> 13 then 0
            else push_bit 32 (word_of_int (strtoll16 (cs2 @ after_id)) XOR (push_bit 16 ms OR ms))
                 OR ms)"
    unfolding v b by (intro Unpack_shape [OF l1 l2])
  also have "\<dots> = push_bit 32 ((word_of_int (uint enc) :: Int64)
                 XOR (push_bit 16 (word_of_int messages_size) OR word_of_int messages_size))
               OR word_of_int messages_size"
    unfolding Let_def s1 s2 sint64 using not13 by (simp only: if_False)
  also have "\<dots> = push_bit 32 (ucast channelId) OR ucast size32"
    unfolding e64 ms64 dec ..
  finally have val: "v = push_bit 32 (ucast channelId) OR ucast size32" .
  have hi_part: "(ucast (signed_drop_bit 32 v) :: Int32) = channelId"
  proof -
    have s: "\<And>n. bit size32 n \<Longrightarrow> n < 32" by (simp add: bit_imp_le_length less_le_trans [OF bit_imp_le_length])
    show ?thesis unfolding val
      by (rule bit_word_eqI) (auto simp: bit_simps dest: bit_imp_le_length)
  qed
  have lo_part: "(ucast v :: Int32) = size32"
    unfolding val by (rule bit_word_eqI) (auto simp: bit_simps)
  have "sint size32 = messages_size"
    using lo hi sz by (simp add: size32_def signed_of_int signed_take_bit_int_eq_self)
  with pack b len val hi_part lo_part show ?thesis
    by (simp add: push_bit_32_scast ms64)
qed

subsection \<open>A packed frame\<close>

lemma char_of_nat_eval: "char_of (n :: nat) = c \<longleftrightarrow> n mod 256 = of_char c"
  by (simp add: char_of_eq_iff take_bit_eq_mod)

lemma hex_char_digits:
  "hex_char 0 = CHR ''0''" "hex_char 1 = CHR ''1''" "hex_char 2 = CHR ''2''"
  "hex_char 3 = CHR ''3''" "hex_char 4 = CHR ''4''" "hex_char (Suc 0) = CHR ''1''"
  by (simp_all add: hex_char_def char_of_nat_eval)

lemma case_digits:
  "tolower CHR ''0'' = CHR ''0''" "toupper CHR ''0'' = CHR ''0''"
  "tolower CHR ''1'' = CHR ''1''" "toupper CHR ''1'' = CHR ''1''"
  "tolower CHR ''2'' = CHR ''2''" "toupper CHR ''2'' = CHR ''2''"
  "tolower CHR ''3'' = CHR ''3''" "toupper CHR ''3'' = CHR ''3''"
  "tolower CHR ''4'' = CHR ''4''" "toupper CHR ''4'' = CHR ''4''"
  by (simp_all add: tolower_def toupper_def)

lemma hex_digits_4:
  "hex_digits 4 n = [hex_char (n div 4096 mod 16), hex_char (n div 256 mod 16),
                     hex_char (n div 16 mod 16), hex_char (n mod 16)]"
proof -
  have "hex_digits (Suc (Suc (Suc (Suc 0)))) n =
          [hex_char (n div 4096 mod 16), hex_char (n div 256 mod 16),
           hex_char (n div 16 mod 16), hex_char (n mod 16)]"
    by (simp add: div_mult2_eq [symmetric])
  moreover have "(4::nat) = Suc (Suc (Suc (Suc 0)))" by simp
  ultimately show ?thesis by (simp only:)
qed

lemma hex_digits_8:
  "hex_digits 8 n =
     [hex_char (n div 268435456 mod 16), hex_char (n div 16777216 mod 16),
      hex_char (n div 1048576 mod 16), hex_char (n div 65536 mod 16),
      hex_char (n div 4096 mod 16), hex_char (n div 256 mod 16),
      hex_char (n div 16 mod 16), hex_char (n mod 16)]"
proof -
  have "hex_digits (Suc (Suc (Suc (Suc (Suc (Suc (Suc (Suc 0)))))))) n =
     [hex_char (n div 268435456 mod 16), hex_char (n div 16777216 mod 16),
      hex_char (n div 1048576 mod 16), hex_char (n div 65536 mod 16),
      hex_char (n div 4096 mod 16), hex_char (n div 256 mod 16),
      hex_char (n div 16 mod 16), hex_char (n mod 16)]"
    by (simp add: div_mult2_eq [symmetric])
  moreover have "(8::nat) = Suc (Suc (Suc (Suc (Suc (Suc (Suc (Suc 0)))))))" by simp
  ultimately show ?thesis by (simp only:)
qed

lemma upt_12: "[0..<12] = [0, 1, 2, 3, 4, 5, 6, 7, 8, 9, 10, 11 :: nat]"
  by (simp add: upt_rec)

lemma printed_example:
  "sprintf_0X 4 (512 :: Int32) @ sprintf_0X 8 ((4660 :: Int32) XOR (push_bit 16 512 OR 512))
   = ''020002001034''"
  by (simp add: sprintf_0X_4 sprintf_0X_8 hex_digits_4 hex_digits_8 hex_char_digits)

lemma packed_example:
  "packed_bytes 65536
     \<lparr>RandomNext = (\<lambda>k lo hi. if k = 0 then 512 else int (k mod 2)),
      RandomAscii = (\<lambda>k. CHR ''q'')\<rparr>
     MemoryStream 4660 1024
   = CHR ''q'' # ''020002001034'' @ replicate 499 (CHR ''q'')"
proof -
  define r where "r = \<lparr>RandomNext = (\<lambda>k lo hi. if k = 0 then 512 else int (k mod 2)),
      RandomAscii = (\<lambda>k. CHR ''q'')\<rparr>"
  have rn0: "\<And>a b. RandomNext r 0 a b = 512" by (simp add: r_def)
  have rnk: "\<And>i. RandomNext r (Suc i) 0 1 = int (Suc i mod 2)" by (simp add: r_def)
  have ra: "RandomAscii r = (\<lambda>k. CHR ''q'')" by (simp add: r_def)
  have pr: "sprintf_0X 4 (word_of_int 512)
            @ sprintf_0X 8 (4660 XOR (push_bit 16 (word_of_int 512) OR word_of_int 512))
            = ''020002001034''"
    using printed_example by simp
  have lp: "length ''020002001034'' = 12" by simp
  have m: "map (\<lambda>k. CHR ''q'') [0..<nat 512] = replicate 512 (CHR ''q'')"
    by (simp add: map_replicate_const)
  have cs: "map (\<lambda>i. if int (Suc i mod 2) \<noteq> 0 then tolower (''020002001034'' ! i)
                     else toupper (''020002001034'' ! i)) [0..<12] = ''020002001034''"
    by (simp add: upt_12 case_digits)
  have all: "take (nat 512) (take 1 (replicate 512 (CHR ''q'')) @ ''020002001034''
               @ [CHR ''q''] @ drop (12 + 2) (replicate 512 (CHR ''q'')))
             = CHR ''q'' # ''020002001034'' @ replicate 499 (CHR ''q'')"
  proof -
    have "replicate 499 (CHR ''q'') = CHR ''q'' # replicate 498 (CHR ''q'')"
      by (simp add: replicate_Suc [symmetric] del: replicate_Suc)
    then show ?thesis by simp
  qed
  have "PackPlaintextHeaders 65536 r MemoryStream 4660 1024
        = Write MemoryStream (CHR ''q'' # ''020002001034'' @ replicate 499 (CHR ''q''))"
    apply (simp only: PackPlaintextHeaders_def Let_def rn0 rnk ra pr lp m cs all)
    apply (simp add: MemoryStream_def)
    done
  then show ?thesis
    by (simp add: packed_bytes_def r_def [symmetric] Write_def MemoryStream_def)
qed

subsection \<open>The round trip\<close>

lemmas strtoll16_eval =
  strtoll16_def strip_0x_def is_xdigit_def digit_value_def hex_number_def isspace_def
  LLONG_MAX_def LLONG_MIN_def

lemma strtoll16_examples:
  "strtoll16 ''0200'' = 512"
  "strtoll16 ''020010340200'' = 2199295099392"
  "strtoll16 ''000E'' = 14"
  "strtoll16 ''000D'' = 13"
  "strtoll16 ''000E000E'' = 917518"
  "strtoll16 ''000E000E000E'' = 60130459662"
  "strtoll16 ''000E000F'' = 917519"
  "strtoll16 ''000E000F000E'' = 60130525198"
  by (simp_all add: strtoll16_eval)

text \<open>
  C1 fails in the code. Asked for 512 bytes and the channel id 4660 (\<open>0x1234\<close>),
  \<open>PackPlaintextHeaders\<close> writes the frame \<open>q020002001034q...\<close>. Where \<open>id\<close> lies
  directly before \<open>len\<close> in memory, the scan of \<open>id\<close> runs on through the four
  characters of \<open>len\<close>, and \<open>UnpackPlaintextLength\<close> returns
  \<open>0x1234000000000200\<close> on this frame, where the packed value
  \<open>(channelId << 32) | size\<close> is 20014547599872: the size 512 is recovered, the
  channel id that comes out is 305397760 (\<open>0x12340000\<close>), not 4660.
\<close>

theorem Unpack_Pack_unterminated:
  "let r = \<lparr>RandomNext = (\<lambda>k lo hi. if k = 0 then 512 else int (k mod 2)),
              RandomAscii = (\<lambda>k. CHR ''q'')\<rparr>;
       blob = packed_bytes 65536 r MemoryStream 4660 1024;
       v = UnpackPlaintextLength [] ''0200'' (Some blob) 0 512
   in blob = CHR ''q'' # ''020002001034'' @ replicate 499 (CHR ''q'')
      \<and> v = 1311673391471657472
      \<and> (push_bit 32 (scast (4660 :: Int32)) OR 512 :: Int64) = 20014547599872
      \<and> (ucast (signed_drop_bit 32 v) :: Int32) = 305397760
      \<and> sint (ucast v :: Int32) = 512"
proof -
  have "UnpackPlaintextLength [] ''0200''
          (Some (CHR ''q'' # ''0200'' @ ''02001034'' @ replicate 499 (CHR ''q''))) 0 512
        = 1311673391471657472"
    by (subst Unpack_shape) (simp_all add: strtoll16_examples Let_def)
  then show ?thesis
    by (simp add: Let_def packed_example)
qed

subsection \<open>What the decoder and the client handler test\<close>

lemma Unpack_fields:
  "UnpackPlaintextLength after_len after_id buffer offset n =
     (case buffer of
        None \<Rightarrow> 0
      | Some bytes \<Rightarrow>
          if offset < 0 \<or> n < 13 \<or> sint (decoded_size after_len bytes offset) \<le> 13 then 0
          else push_bit 32 (decoded_channelid after_len after_id bytes offset)
               OR decoded_size after_len bytes offset)"
  by (auto simp: UnpackPlaintextLength_def decoded_size_def decoded_channelid_def Let_def
      split: option.splits)

lemma size_nonzero: "13 < sint (w :: Int64) \<Longrightarrow> (a OR w) \<noteq> 0"
  by (auto simp: or_eq_0_iff)










lemma HandshakeClient_generic:
  "let v = UnpackPlaintextLength after_len after_id buffer 0 n;
       decoded_size = sint (ucast v :: Int32);
       decoded_channelId = (ucast (signed_drop_bit 32 v) :: Int32);
       success = (decoded_size = n \<and> decoded_channelId \<noteq> 0)
   in run_HandshakeClient_lambda after_len after_id cb buffer n
        = (cb, success, if success then decoded_channelId else 0)"
proof (cases "buffer = None \<or> n < 1")
  case True
  then have "UnpackPlaintextLength after_len after_id buffer 0 n = 0"
    by (auto simp: Unpack_fields split: option.splits)
  with True show ?thesis
    by (simp add: run_HandshakeClient_lambda_def Let_def)
next
  case False
  then show ?thesis
    by (auto simp: run_HandshakeClient_lambda_def Let_def)
qed

lemmas decoded_eval = decoded_size_def decoded_channelid_def size_field_def

text \<open>
  C2 as stated fails: the frame \<open>z000E000E000Ez\<close> of length 14 decodes to the size 14
  and to the channel id 0, and \<open>UnpackPlaintextLength\<close> returns 14, not 0, whether the
  scan of \<open>id\<close> runs on through \<open>len\<close> or ends with the array.
\<close>

theorem Unpack_zero_channelId_counterexample:
  "sint (decoded_size [] ''z000E000E000Ez'' 0) = 14
   \<and> (ucast (decoded_channelid [] ''000E'' ''z000E000E000Ez'' 0) :: Int32) = 0
   \<and> UnpackPlaintextLength [] ''000E'' (Some ''z000E000E000Ez'') 0 14 = 14
   \<and> decoded_channelid [] [] ''z000E000E000Ez'' 0 = 0
   \<and> UnpackPlaintextLength [] [] (Some ''z000E000E000Ez'') 0 14 = 14"
  by (simp add: Unpack_fields decoded_eval strtoll16_examples)

text \<open>
  C2, amended. Whatever lies in memory behind the two arrays:
  \<open>UnpackPlaintextLength\<close> returns 0 whenever the size that \<open>strtoll\<close> decodes is at
  most 13. For an offset from 0 on, a length from 13 on and a decoded size above 13 it
  returns \<open>(channelid << 32) | size\<close>, which is never 0, also when the recovered
  channel id is 0. The zero channel id is rejected by the caller: the handler of
  \<open>HandshakeClient\<close> delivers \<open>(false, 0)\<close> whenever the upper half of the value
  returned is 0.
\<close>

theorem Unpack_zero_only_by_size:
  "(sint (decoded_size after_len bytes offset) \<le> 13
      \<longrightarrow> UnpackPlaintextLength after_len after_id (Some bytes) offset n = 0)
   \<and> (0 \<le> offset \<and> 13 \<le> n \<and> 13 < sint (decoded_size after_len bytes offset)
      \<longrightarrow> UnpackPlaintextLength after_len after_id (Some bytes) offset n
            = (push_bit 32 (decoded_channelid after_len after_id bytes offset)
               OR decoded_size after_len bytes offset)
          \<and> UnpackPlaintextLength after_len after_id (Some bytes) offset n \<noteq> 0)
   \<and> ((ucast (signed_drop_bit 32 (UnpackPlaintextLength after_len after_id buffer 0 n)) :: Int32) = 0
      \<longrightarrow> run_HandshakeClient_lambda after_len after_id cb buffer n = (cb, False, 0))"
proof -
  have "(ucast (signed_drop_bit 32 (UnpackPlaintextLength after_len after_id buffer 0 n)) :: Int32) = 0
      \<Longrightarrow> run_HandshakeClient_lambda after_len after_id cb buffer n = (cb, False, 0)"
    using HandshakeClient_generic [of after_len after_id buffer n cb] by (simp add: Let_def)
  then show ?thesis
    by (auto simp: Unpack_fields size_nonzero)
qed

theorem Unpack_zero_only_by_size_witness:
  "sint (decoded_size [] ''z000D000E000Ez'' 0) \<le> 13
   \<and> UnpackPlaintextLength [] ''000D'' (Some ''z000D000E000Ez'') 0 14 = 0
   \<and> (0::int) \<le> 0 \<and> (13::int) \<le> 14 \<and> 13 < sint (decoded_size [] ''z000E000E000Ez'' 0)
   \<and> UnpackPlaintextLength [] ''000E'' (Some ''z000E000E000Ez'') 0 14 = 14
   \<and> UnpackPlaintextLength [] ''000E'' (Some ''z000E000E000Ez'') 0 14 \<noteq> 0
   \<and> (ucast (signed_drop_bit 32
          (UnpackPlaintextLength [] ''000E'' (Some ''z000E000E000Ez'') 0 14)) :: Int32) = 0
   \<and> run_HandshakeClient_lambda [] ''000E'' 7 (Some ''z000E000E000Ez'') 14 = (7, False, 0)"
  using Unpack_zero_only_by_size [of "[]" "''z000D000E000Ez''" 0 "''000D''" 14 "Some ''z000D000E000Ez''" 7]
    Unpack_zero_only_by_size [of "[]" "''z000E000E000Ez''" 0 "''000E''" 14 "Some ''z000E000E000Ez''" 7]
  by (simp add: decoded_eval strtoll16_examples)






subsection \<open>The server side of the handshake\<close>

lemma length_sprintf_0X: "width \<le> length (sprintf_0X width v)"
  by (simp add: sprintf_0X_def)

lemma Pack_succeeds:
  assumes "CanWrite stream"
  shows "PackPlaintextHeaders BufferSize r stream channelId alignment
         = (True, stream\<lparr>GetBuffer := GetBuffer stream
              @ packed_bytes BufferSize r stream channelId alignment\<rparr>)"
proof -
  have "\<And>v. sprintf_0X 4 v \<noteq> []"
  proof
    fix v assume "sprintf_0X 4 v = []"
    with length_sprintf_0X [of 4 v] show False by simp
  qed
  then show ?thesis
    using assms by (simp add: packed_bytes_def PackPlaintextHeaders_def Let_def Write_def)
qed

lemma HandshakeServer_writes:
  assumes "push_bit 1 UINT8_MAX \<le> alignment" and "channelId \<noteq> 0"
  shows "HandshakeServer BufferSize e (Some t) alignment channelId (Some cb)
         = (ok e 0,
            [call_WriteAsync t
               (Some (packed_bytes BufferSize (rnd e) MemoryStream channelId alignment)) 0
               (int (length (packed_bytes BufferSize (rnd e) MemoryStream channelId alignment)))
               (HandshakeServer_lambda cb channelId)])"
proof -
  have w: "CanWrite MemoryStream" and b: "GetBuffer MemoryStream = []"
    by (simp_all add: MemoryStream_def)
  show ?thesis
    using assms by (simp add: HandshakeServer_def Pack_succeeds [OF w] b GetPosition_def)
qed

text \<open>
  C5 as stated fails: with alignment 510, which is below 512, a transport, a handler and
  the channel id 1, \<open>HandshakeServer\<close> does not return false without a write: it
  returns what \<open>WriteAsync\<close> returns and has issued one write.
\<close>

theorem HandshakeServer_alignment_510_counterexample:
  "(510::int) < 512
   \<and> fst (HandshakeServer 65536
        \<lparr>ok = (\<lambda>k. True), ClearTimeout_resets = False,
         ToEndPoint = (\<lambda>ip p. \<lparr>is_unspecified = False, is_multicast = False, is_v4 = True, port = p\<rparr>),
         rnd = \<lparr>RandomNext = (\<lambda>k lo hi. if k = 0 then lo else 0), RandomAscii = (\<lambda>k. CHR ''q'')\<rparr>\<rparr>
        (Some \<lparr>tid = 1, io_context = Some 0\<rparr>) 510 1 (Some 7))
   \<and> length (snd (HandshakeServer 65536
        \<lparr>ok = (\<lambda>k. True), ClearTimeout_resets = False,
         ToEndPoint = (\<lambda>ip p. \<lparr>is_unspecified = False, is_multicast = False, is_v4 = True, port = p\<rparr>),
         rnd = \<lparr>RandomNext = (\<lambda>k lo hi. if k = 0 then lo else 0), RandomAscii = (\<lambda>k. CHR ''q'')\<rparr>\<rparr>
        (Some \<lparr>tid = 1, io_context = Some 0\<rparr>) 510 1 (Some 7))) = 1"
  by (simp add: HandshakeServer_writes UINT8_MAX_def)

text \<open>
  C5, amended. \<open>HandshakeServer\<close> returns false and issues no call whenever the
  transport or the handler is missing, the alignment is below 510 (\<open>UINT8_MAX << 1\<close>),
  or the channel id is 0. For every alignment from 510 on and every channel id but 0 it
  packs a header and issues one \<open>WriteAsync\<close> of exactly the packed bytes, returns what
  \<open>WriteAsync\<close> returns, and the handler of the write delivers
  \<open>(success, channelId)\<close> to the callback.
\<close>

theorem HandshakeServer_guard_and_write:
  "(transmission = None \<or> handler = None \<or> alignment < 510 \<or> channelId = 0
      \<longrightarrow> HandshakeServer BufferSize e transmission alignment channelId handler = (False, []))
   \<and> (510 \<le> alignment \<and> channelId \<noteq> 0
      \<longrightarrow> HandshakeServer BufferSize e (Some t) alignment channelId (Some cb)
            = (ok e 0,
               [call_WriteAsync t
                  (Some (packed_bytes BufferSize (rnd e) MemoryStream channelId alignment)) 0
                  (int (length (packed_bytes BufferSize (rnd e) MemoryStream channelId alignment)))
                  (HandshakeServer_lambda cb channelId)])
          \<and> run_HandshakeServer_lambda cb channelId success = (cb, success, channelId))"
proof -
  have "transmission = None \<or> handler = None \<or> alignment < 510 \<or> channelId = 0
      \<Longrightarrow> HandshakeServer BufferSize e transmission alignment channelId handler = (False, [])"
    by (auto simp: HandshakeServer_def UINT8_MAX_def split: option.splits)
  moreover have "510 \<le> alignment \<and> channelId \<noteq> 0
      \<Longrightarrow> HandshakeServer BufferSize e (Some t) alignment channelId (Some cb)
            = (ok e 0,
               [call_WriteAsync t
                  (Some (packed_bytes BufferSize (rnd e) MemoryStream channelId alignment)) 0
                  (int (length (packed_bytes BufferSize (rnd e) MemoryStream channelId alignment)))
                  (HandshakeServer_lambda cb channelId)])"
    by (intro HandshakeServer_writes) (simp_all add: UINT8_MAX_def)
  ultimately show ?thesis
    by (simp add: run_HandshakeServer_lambda_def)
qed

theorem HandshakeServer_guard_and_write_witness:
  "let e = \<lparr>ok = (\<lambda>k. True), ClearTimeout_resets = False,
             ToEndPoint = (\<lambda>ip p. default_endpoint),
             rnd = \<lparr>RandomNext = (\<lambda>k lo hi. lo), RandomAscii = (\<lambda>k. CHR ''q'')\<rparr>\<rparr>;
       t = \<lparr>tid = 1, io_context = Some 0\<rparr>
   in HandshakeServer 65536 e None 1024 1 (Some 7) = (False, [])
      \<and> HandshakeServer 65536 e (Some t) 509 1 (Some 7) = (False, [])
      \<and> (510::int) \<le> 510 \<and> (1 :: Int32) \<noteq> 0
      \<and> HandshakeServer 65536 e (Some t) 510 1 (Some 7)
          = (True,
             [call_WriteAsync t (Some (packed_bytes 65536 (rnd e) MemoryStream 1 510)) 0
                (int (length (packed_bytes 65536 (rnd e) MemoryStream 1 510)))
                (HandshakeServer_lambda 7 1)])
      \<and> run_HandshakeServer_lambda 7 1 True = (7, True, 1)"
proof -
  define e where "e = \<lparr>ok = (\<lambda>k. True), ClearTimeout_resets = False,
             ToEndPoint = (\<lambda>ip p. default_endpoint),
             rnd = \<lparr>RandomNext = (\<lambda>k lo hi. lo), RandomAscii = (\<lambda>k. CHR ''q'')\<rparr>\<rparr>"
  define t where "t = \<lparr>tid = 1, io_context = Some 0\<rparr>"
  have k: "ok e 0" by (simp add: e_def)
  show ?thesis
    unfolding Let_def e_def [symmetric] t_def [symmetric]
    using HandshakeServer_guard_and_write [of None "Some 7" 1024 1 65536 e t 7 True]
      HandshakeServer_guard_and_write [of "Some t" "Some 7" 509 1 65536 e t 7 True]
      HandshakeServer_guard_and_write [of "Some t" "Some 7" 510 1 65536 e t 7 True] k
    by simp
qed

section \<open>Properties of the Connection\<close>

subsection \<open>What arming an operation leaves unchanged\<close>

lemma frame_emit [simp]:
  "\<not> closing x \<Longrightarrow> \<not> allocating x \<Longrightarrow> frame (emit x s) = frame s"
  by (simp add: frame_def emit_def)

lemma frame_updates [simp]:
  "frame (s\<lparr>timers := ts\<rparr>) = frame s"
  "frame (s\<lparr>timeout_' := t\<rparr>) = frame s"
  "frame (s\<lparr>available_' := a\<rparr>) = frame s"
  "frame (s\<lparr>crashed := c\<rparr>) = frame s"
  by (simp_all add: frame_def)

lemma frame_ClearTimeout [simp]: "frame (ClearTimeout e s) = frame s"
  by (simp add: ClearTimeout_def closing_def allocating_def)

lemma frame_SetTimeout [simp]: "frame (snd (SetTimeout e h ms s)) = frame s"
  by (simp add: SetTimeout_def Let_def closing_def allocating_def)

lemma frame_RemoteSocketToOutboundSocket [simp]:
  "frame (snd (RemoteSocketToOutboundSocket e s)) = frame s"
  by (simp add: RemoteSocketToOutboundSocket_def closing_def allocating_def split: option.splits)

lemma frame_InboundSocketToRemoteSocket [simp]:
  "frame (snd (InboundSocketToRemoteSocket e s)) = frame s"
  by (simp add: InboundSocketToRemoteSocket_def closing_def allocating_def split: option.splits)

lemma frame_SendToRemoteSocket [simp]:
  "frame (snd (SendToRemoteSocket e b n s)) = frame s"
  by (simp add: SendToRemoteSocket_def closing_def allocating_def split: option.splits)

lemma frame_SendToOutboundSocket [simp]:
  "frame (snd (SendToOutboundSocket e b n s)) = frame s"
  by (simp add: SendToOutboundSocket_def closing_def allocating_def split: option.splits)

lemma frame_KeepAlivedReadCycle [simp]:
  "frame (snd (KeepAlivedReadCycle e t s)) = frame s"
  by (simp add: KeepAlivedReadCycle_def closing_def allocating_def split: option.splits)

lemma frame_KeepAlivedSendCycle [simp]:
  "frame (snd (KeepAlivedSendCycle e t s)) = frame s"
proof -
  have "\<And>s1 h ms. frame (snd (SetTimeout e h ms s1)\<lparr>timeout_' := fst (SetTimeout e h ms s1)\<rparr>) = frame s1"
    by simp
  then show ?thesis
    by (simp add: KeepAlivedSendCycle_def Let_def split_def split: option.splits)
qed

lemma EstablishRemoteSocket_cases:
  assumes 1: "InboundSocketToRemoteSocket e s = (a1, s1)"
    and 2: "(if a1 then RemoteSocketToOutboundSocket e s1 else (False, s1)) = (av, s2)"
    and 3: "KeepAlivedReadCycle e (outbound_' s2) s2 = (k1, s3)"
  shows "EstablishRemoteSocket e s =
     (if av then
           (case configuration_' s2 of
              None \<Rightarrow> (False, s2\<lparr>crashed := True\<rparr>)
            | Some configuration \<Rightarrow>
                if KeepAlived configuration then
                   (if k1 then KeepAlivedSendCycle e (inbound_' s3) s3 else (False, s3))
                else (av, s2))
         else (av, s2))"
  unfolding EstablishRemoteSocket_def Let_def 1 prod.case 2 3 ..

lemma frame_EstablishRemoteSocket [simp]:
  "frame (snd (EstablishRemoteSocket e s)) = frame s"
proof -
  obtain a1 s1 where 1: "InboundSocketToRemoteSocket e s = (a1, s1)"
    by (cases "InboundSocketToRemoteSocket e s")
  have f1: "frame s1 = frame s"
    using frame_InboundSocketToRemoteSocket [of e s] by (simp add: 1)
  obtain av s2 where 2: "(if a1 then RemoteSocketToOutboundSocket e s1 else (False, s1)) = (av, s2)"
    by (cases "if a1 then RemoteSocketToOutboundSocket e s1 else (False, s1)")
  have "s2 = snd (if a1 then RemoteSocketToOutboundSocket e s1 else (False, s1))"
    by (simp only: 2 snd_conv)
  then have f2: "frame s2 = frame s"
    using f1 by (cases a1) simp_all
  obtain k1 s3 where 3: "KeepAlivedReadCycle e (outbound_' s2) s2 = (k1, s3)"
    by (cases "KeepAlivedReadCycle e (outbound_' s2) s2")
  have f3: "frame s3 = frame s"
    using frame_KeepAlivedReadCycle [of e "outbound_' s2" s2] by (simp add: 3 f2)
  have f4: "frame (snd (KeepAlivedSendCycle e (inbound_' s3) s3)) = frame s"
    by (simp add: f3)
  show ?thesis
    unfolding EstablishRemoteSocket_cases [OF 1 2 3]
    by (cases av; cases "configuration_' s2"; cases k1) (simp_all add: f2 f3 f4)
qed

lemma frame_fields:
  assumes "frame s' = frame s"
  shows "disposed_' s' = disposed_' s" "disposals s' = disposals s" "buffers_' s' = buffers_' s"
    "remote_' s' = remote_' s" "resolver_' s' = resolver_' s" "inbound_' s' = inbound_' s"
    "outbound_' s' = outbound_' s" "configuration_' s' = configuration_' s"
    "DisposedEvent s' = DisposedEvent s" "ECONNECTION_MSS s' = ECONNECTION_MSS s"
    "filter closing (trace s') = filter closing (trace s)"
    "filter allocating (trace s') = filter allocating (trace s)"
  using assms by (simp_all add: frame_def)

lemma fired_closing: "fired s = length (filter (\<lambda>x. case x of fire_DisposedEvent _ \<Rightarrow> True | _ \<Rightarrow> False) (filter closing (trace s)))"
proof -
  have "\<And>x. (closing x \<and> (case x of fire_DisposedEvent _ \<Rightarrow> True | _ \<Rightarrow> False))
             = (case x of fire_DisposedEvent _ \<Rightarrow> True | _ \<Rightarrow> False)"
    by (simp add: closing_def split: effect.splits)
  then show ?thesis by (simp add: fired_def)
qed

lemma frame_fired:
  assumes "frame s' = frame s"
  shows "fired s' = fired s"
  unfolding fired_closing frame_fields(11) [OF assms] ..

subsection \<open>Disposal\<close>

lemma dview_emit:
  "dview (emit x s) =
     (disposed_' s, disposals s,
      (case x of fire_DisposedEvent _ \<Rightarrow> Suc (fired s) | _ \<Rightarrow> fired s),
      timers s, timeout_' s, DisposedEvent s)"
  by (cases x) (simp_all add: dview_def emit_def fired_def)

lemma dview_Dispose_stages [simp]:
  "dview (Dispose_inbound s) = dview s"
  "dview (Dispose_outbound s) = dview s"
  "dview (Dispose_remote s) = dview s"
  "dview (Dispose_resolver s) = dview s"
  "dview (Dispose_reset s) = dview s"
  by (simp_all add: Dispose_inbound_def Dispose_outbound_def Dispose_remote_def
      Dispose_resolver_def Dispose_reset_def dview_emit split: option.splits)
    (simp_all add: dview_def fired_def)

lemma dview_ClearTimeout:
  "dview (ClearTimeout e s) =
     (disposed_' s, disposals s, fired s, timers s - set_option (timeout_' s),
      (if ClearTimeout_resets e then None else timeout_' s), DisposedEvent s)"
  by (simp add: ClearTimeout_def dview_def emit_def fired_def)

lemma dview_Dispose_DisposedEvent:
  "dview (Dispose_DisposedEvent s) =
     (disposed_' s, disposals s,
      (if DisposedEvent s = None then fired s else Suc (fired s)),
      timers s, timeout_' s, None)"
  by (simp add: Dispose_DisposedEvent_def dview_emit split: option.splits)
    (simp_all add: dview_def fired_def)

lemma dview_fields:
  "disposed_' s = fst (dview s)" "disposals s = fst (snd (dview s))"
  "fired s = fst (snd (snd (dview s)))" "timers s = fst (snd (snd (snd (dview s))))"
  "timeout_' s = fst (snd (snd (snd (snd (dview s)))))"
  "DisposedEvent s = snd (snd (snd (snd (snd (dview s)))))"
  by (simp_all add: dview_def)

lemma Dispose_dview:
  "dview (Dispose e s) =
     (if disposed_' s then dview s
      else (True, Suc (disposals s),
            (if DisposedEvent s = None then fired s else Suc (fired s)),
            timers s - set_option (timeout_' s),
            (if ClearTimeout_resets e then None else timeout_' s),
            None))"
proof (cases "disposed_' s")
  case True
  then show ?thesis by (simp add: Dispose_def)
next
  case False
  define s0 where "s0 = s\<lparr>disposed_' := True, disposals := Suc (disposals s)\<rparr>"
  define s5 where "s5 = Dispose_reset (Dispose_resolver (Dispose_remote (Dispose_outbound (Dispose_inbound s0))))"
  have v0: "dview s0 = (True, Suc (disposals s), fired s, timers s, timeout_' s, DisposedEvent s)"
    by (simp add: s0_def dview_def fired_def)
  have v5: "dview s5 = (True, Suc (disposals s), fired s, timers s, timeout_' s, DisposedEvent s)"
    by (simp add: s5_def v0)
  have D: "Dispose e s = Dispose_DisposedEvent (ClearTimeout e s5)"
    using False by (simp add: Dispose_def Let_def s5_def s0_def)
  have v6: "dview (ClearTimeout e s5) =
      (True, Suc (disposals s), fired s, timers s - set_option (timeout_' s),
       (if ClearTimeout_resets e then None else timeout_' s), DisposedEvent s)"
    unfolding dview_ClearTimeout by (simp add: dview_fields v5)
  show ?thesis
    unfolding D dview_Dispose_DisposedEvent using False
    by (simp add: dview_fields v6)
qed

lemma disposal_inv_dview: "disposal_inv s = (case dview s of (d, n, f, _) \<Rightarrow> f \<le> n \<and> n \<le> 1 \<and> (d = (n = 1)))"
  by (simp add: disposal_inv_def dview_def)

lemma timer_inv_dview:
  "timer_inv s = (case dview s of (d, n, f, ts, t, _) \<Rightarrow> ts \<subseteq> set_option t \<and> (if d then ts = {} else True))"
  by (simp add: timer_inv_def dview_def)

lemma disposal_inv_Dispose: "disposal_inv s \<Longrightarrow> disposal_inv (Dispose e s)"
  unfolding disposal_inv_dview Dispose_dview by (auto simp: dview_def)

lemma timer_inv_Dispose: "timer_inv s \<Longrightarrow> timer_inv (Dispose e s)"
  unfolding timer_inv_dview Dispose_dview by (auto simp: dview_def)

lemma Dispose_idem: "Dispose e (Dispose e s) = Dispose e s"
proof -
  have "disposed_' (Dispose e s)"
    using Dispose_dview [of e s] by (auto simp: dview_def split: if_splits)
  then show ?thesis by (subst Dispose_def) simp
qed

lemma disposal_inv_frame:
  assumes "frame s' = frame s"
  shows "disposal_inv s' = disposal_inv s"
  unfolding disposal_inv_def frame_fired [OF assms] frame_fields(1,2) [OF assms] ..

subsection \<open>The invariants along a run\<close>

lemma conn_inv_dview: "dview s' = dview s \<Longrightarrow> conn_inv s' = conn_inv s"
  by (simp add: conn_inv_def disposal_inv_dview timer_inv_dview)

lemma dview_updates [simp]:
  "dview (s\<lparr>available_' := a\<rparr>) = dview s"
  "dview (s\<lparr>crashed := c\<rparr>) = dview s"
  "dview (s\<lparr>buffers_' := b\<rparr>) = dview s"
  "dview (s\<lparr>remote_' := r\<rparr>) = dview s"
  "dview (s\<lparr>resolver_' := r'\<rparr>) = dview s"
  by (simp_all add: dview_def fired_def)

lemma dview_emit_quiet [simp]:
  "\<not> closing x \<Longrightarrow> dview (emit x s) = dview s"
  by (cases x) (simp_all add: dview_emit closing_def, simp_all add: dview_def)

lemma dview_make_shared_alloc [simp]: "dview (snd (make_shared_alloc e n s)) = dview s"
  by (simp add: make_shared_alloc_def closing_def)

lemma dview_RemoteSocketToOutboundSocket [simp]:
  "dview (snd (RemoteSocketToOutboundSocket e s)) = dview s"
  by (simp add: RemoteSocketToOutboundSocket_def closing_def split: option.splits)

lemma dview_InboundSocketToRemoteSocket [simp]:
  "dview (snd (InboundSocketToRemoteSocket e s)) = dview s"
  by (simp add: InboundSocketToRemoteSocket_def closing_def split: option.splits)

lemma dview_SendToRemoteSocket [simp]:
  "dview (snd (SendToRemoteSocket e b n s)) = dview s"
  by (simp add: SendToRemoteSocket_def closing_def split: option.splits)

lemma dview_SendToOutboundSocket [simp]:
  "dview (snd (SendToOutboundSocket e b n s)) = dview s"
  by (simp add: SendToOutboundSocket_def closing_def split: option.splits)

lemma dview_KeepAlivedReadCycle [simp]:
  "dview (snd (KeepAlivedReadCycle e t s)) = dview s"
  by (simp add: KeepAlivedReadCycle_def closing_def split: option.splits)

lemma dview_NewRemoteSocket [simp]:
  "dview (snd (NewRemoteSocket e c ctx ep s)) = dview s"
  by (simp add: NewRemoteSocket_def Let_def closing_def split: option.splits)

lemma dview_ConnectRemoteSocket [simp]:
  "dview (snd (ConnectRemoteSocket e ep s)) = dview s"
proof -
  obtain sock s1 where 1: "NewRemoteSocket e (configuration_' s) (GetContext s) ep s = (sock, s1)"
    by (cases "NewRemoteSocket e (configuration_' s) (GetContext s) ep s")
  have "dview s1 = dview s"
    using dview_NewRemoteSocket [of e "configuration_' s" "GetContext s" ep s] by (simp add: 1)
  then show ?thesis
    by (simp add: ConnectRemoteSocket_def 1 closing_def split: option.splits)
qed

lemma conn_inv_ClearTimeout: "conn_inv s \<Longrightarrow> conn_inv (ClearTimeout e s)"
  by (auto simp: conn_inv_def disposal_inv_dview timer_inv_dview dview_ClearTimeout)
    (auto simp: dview_def)

lemma timers_ClearTimeout: "conn_inv s \<Longrightarrow> timers (ClearTimeout e s) = {}"
  by (auto simp: conn_inv_def timer_inv_def ClearTimeout_def emit_def)

lemma conn_inv_KeepAlivedSendCycle: "conn_inv s \<Longrightarrow> conn_inv (snd (KeepAlivedSendCycle e t s))"
proof (cases "disposed_' s \<or> t = None \<or> GetContext s = None")
  case True
  then show "conn_inv s \<Longrightarrow> ?thesis"
    by (auto simp: KeepAlivedSendCycle_def split: option.splits)
next
  case False
  assume i: "conn_inv s"
  define s1 where "s1 = (if timeout_' s \<noteq> None then ClearTimeout e s else s)"
  have i1: "conn_inv s1" using i by (simp add: s1_def conn_inv_ClearTimeout)
  have t1: "timers s1 = {}"
    using i timers_ClearTimeout [OF i, of e]
    by (auto simp: s1_def conn_inv_def timer_inv_def)
  have d1: "\<not> disposed_' s1"
    using False by (simp add: s1_def ClearTimeout_def emit_def)
  obtain n ms h where
    k: "snd (KeepAlivedSendCycle e t s) =
          (snd (SetTimeout e h ms s1))\<lparr>timeout_' := fst (SetTimeout e h ms s1)\<rparr>"
    using False
    by (auto simp: KeepAlivedSendCycle_def Let_def split_def s1_def split: option.splits)
  have "dview ((snd (SetTimeout e h ms s1))\<lparr>timeout_' := fst (SetTimeout e h ms s1)\<rparr>)
        = (disposed_' s1, disposals s1, fired s1,
           (if answer e s1 then {length (trace s1)} else {}),
           (if answer e s1 then Some (length (trace s1)) else None), DisposedEvent s1)"
    using t1 by (simp add: SetTimeout_def Let_def dview_def emit_def fired_def)
  then show ?thesis
    unfolding k using i1 d1
    by (auto simp: conn_inv_def disposal_inv_dview timer_inv_dview) (auto simp: dview_def)
qed

lemma conn_inv_dviewI: "conn_inv s \<Longrightarrow> dview s' = dview s \<Longrightarrow> conn_inv s'"
  by (simp add: conn_inv_def disposal_inv_dview timer_inv_dview)

lemma conn_inv_EstablishRemoteSocket: "conn_inv s \<Longrightarrow> conn_inv (snd (EstablishRemoteSocket e s))"
proof -
  assume i: "conn_inv s"
  obtain a1 s1 where 1: "InboundSocketToRemoteSocket e s = (a1, s1)"
    by (cases "InboundSocketToRemoteSocket e s")
  have e1: "s1 = snd (InboundSocketToRemoteSocket e s)" by (simp add: 1)
  have i1: "conn_inv s1" by (rule conn_inv_dviewI [OF i]) (simp add: e1)
  obtain av s2 where 2: "(if a1 then RemoteSocketToOutboundSocket e s1 else (False, s1)) = (av, s2)"
    by (cases "if a1 then RemoteSocketToOutboundSocket e s1 else (False, s1)")
  have "s2 = snd (if a1 then RemoteSocketToOutboundSocket e s1 else (False, s1))"
    by (simp only: 2 snd_conv)
  then have "dview s2 = dview s1" by (cases a1) simp_all
  with i1 have i2: "conn_inv s2" by (rule conn_inv_dviewI)
  obtain k1 s3 where 3: "KeepAlivedReadCycle e (outbound_' s2) s2 = (k1, s3)"
    by (cases "KeepAlivedReadCycle e (outbound_' s2) s2")
  have e3: "s3 = snd (KeepAlivedReadCycle e (outbound_' s2) s2)" by (simp add: 3)
  have i3: "conn_inv s3" by (rule conn_inv_dviewI [OF i2]) (simp add: e3)
  have i4: "conn_inv (snd (KeepAlivedSendCycle e (inbound_' s3) s3))"
    using i3 by (rule conn_inv_KeepAlivedSendCycle)
  have i5: "conn_inv (s2\<lparr>crashed := True\<rparr>)"
    using i2 by (rule conn_inv_dviewI) simp
  show ?thesis
    unfolding EstablishRemoteSocket_cases [OF 1 2 3]
    by (cases av; cases "configuration_' s2"; cases k1) (simp_all add: i2 i3 i4 i5)
qed

lemma Listen_guard: "disposed_' s \<or> buffers_' s \<noteq> None \<Longrightarrow> Listen e network s = (False, s)"
  by (simp add: Listen_def)

lemma Listen_Some:
  assumes 0: "make_shared_alloc e (ECONNECTION_MSS s) s = (buffers, s0)"
    and g: "\<not> (disposed_' s \<or> buffers_' s \<noteq> None)"
    and 3: "EstablishRemoteSocket e (s0\<lparr>buffers_' := buffers, remote_' := Some socket\<rparr>) = (av, s3)"
  shows "Listen e (Some socket) s = (av, if crashed s3 then s3 else s3\<lparr>available_' := av\<rparr>)"
  unfolding Listen_def Let_def 0 prod.case option.case
  using g by (simp only: if_False 3 prod.case)

lemma Listen_None:
  assumes 0: "make_shared_alloc e (ECONNECTION_MSS s) s = (buffers, s0)"
    and g: "\<not> (disposed_' s \<or> buffers_' s \<noteq> None)"
    and s1: "s1 = s0\<lparr>buffers_' := buffers\<rparr>"
    and s2: "s2 = (emit (new_resolver (length (trace s1))) s1)
                    \<lparr>resolver_' := (if answer e s1 then Some (length (trace s1)) else None)\<rparr>"
  shows "Listen e None s =
           (if IsNone s1 \<or> remote_' s1 \<noteq> None \<or> GetContext s1 = None then (False, s1)
            else if resolver_' s2 = None then (False, s2)
            else case configuration_' s2 of
                   None \<Rightarrow> (False, s2\<lparr>crashed := True\<rparr>)
                 | Some configuration \<Rightarrow>
                     if Domain configuration then
                       (True, emit (call_GetAddressByHostName (IP configuration)
                                      (Port configuration) Listen_lambda) s2)
                     else ConnectRemoteSocket e
                            (ToEndPoint e (IP configuration) (Port configuration)) s2)"
  unfolding Listen_def Let_def 0 prod.case option.case s2 s1
  using g by (simp only: if_False)

lemma conn_inv_Listen: "conn_inv s \<Longrightarrow> conn_inv (snd (Listen e network s))"
proof (cases "disposed_' s \<or> buffers_' s \<noteq> None")
  case True
  then show "conn_inv s \<Longrightarrow> ?thesis" by (simp add: Listen_guard)
next
  case False
  assume i: "conn_inv s"
  obtain buffers s0 where 0: "make_shared_alloc e (ECONNECTION_MSS s) s = (buffers, s0)"
    by (cases "make_shared_alloc e (ECONNECTION_MSS s) s")
  define s1 where "s1 = s0\<lparr>buffers_' := buffers\<rparr>"
  have d0: "dview s0 = dview s"
    using dview_make_shared_alloc [of e "ECONNECTION_MSS s" s] by (simp add: 0)
  have i1: "conn_inv s1" by (rule conn_inv_dviewI [OF i]) (simp add: s1_def d0)
  show ?thesis
  proof (cases network)
    case (Some socket)
    obtain av s3 where
      3: "EstablishRemoteSocket e (s0\<lparr>buffers_' := buffers, remote_' := Some socket\<rparr>) = (av, s3)"
      by (cases "EstablishRemoteSocket e (s0\<lparr>buffers_' := buffers, remote_' := Some socket\<rparr>)")
    have "conn_inv (s0\<lparr>buffers_' := buffers, remote_' := Some socket\<rparr>)"
      by (rule conn_inv_dviewI [OF i]) (simp add: d0)
    then have "conn_inv s3"
      using conn_inv_EstablishRemoteSocket [of "s0\<lparr>buffers_' := buffers, remote_' := Some socket\<rparr>" e]
      by (simp add: 3)
    then have "conn_inv (if crashed s3 then s3 else s3\<lparr>available_' := av\<rparr>)"
      by (rule conn_inv_dviewI) simp
    then show ?thesis
      by (simp add: Some Listen_Some [OF 0 False 3])
  next
    case None
    define s2 where "s2 = (emit (new_resolver (length (trace s1))) s1)
                            \<lparr>resolver_' := (if answer e s1 then Some (length (trace s1)) else None)\<rparr>"
    have i2: "conn_inv s2" by (rule conn_inv_dviewI [OF i1]) (simp add: s2_def closing_def)
    have i3: "conn_inv (s2\<lparr>crashed := True\<rparr>)" by (rule conn_inv_dviewI [OF i2]) simp
    have i4: "\<And>x. \<not> closing x \<Longrightarrow> conn_inv (emit x s2)" by (rule conn_inv_dviewI [OF i2]) simp
    have i5: "\<And>ep. conn_inv (snd (ConnectRemoteSocket e ep s2))" by (rule conn_inv_dviewI [OF i2]) simp
    show ?thesis
      unfolding None Listen_None [OF 0 False s1_def s2_def] using i1 i2 i3 i4 i5
      by (simp add: closing_def split: option.splits)
  qed
qed

lemma conn_inv_Dispose: "conn_inv s \<Longrightarrow> conn_inv (Dispose e s)"
  by (simp add: conn_inv_def disposal_inv_Dispose timer_inv_Dispose)

lemma conn_inv_Close: "conn_inv s \<Longrightarrow> conn_inv (Close e s)"
  by (simp add: Close_def conn_inv_def disposal_inv_Dispose timer_inv_Dispose)

lemma conn_inv_snd: "conn_inv s \<Longrightarrow> dview (snd p) = dview s \<Longrightarrow> conn_inv (snd p)"
  by (rule conn_inv_dviewI)

lemma conn_inv_run_Listen_lambda: "conn_inv s \<Longrightarrow> conn_inv (run_Listen_lambda e ep s)"
  by (simp add: run_Listen_lambda_def Let_def conn_inv_snd)

lemma conn_inv_run_ConnectRemoteSocket_lambda:
  "conn_inv s \<Longrightarrow> conn_inv (run_ConnectRemoteSocket_lambda e ec s)"
proof -
  assume i: "conn_inv s"
  obtain av s' where 1: "EstablishRemoteSocket e s = (av, s')"
    by (cases "EstablishRemoteSocket e s")
  have i': "conn_inv s'" using conn_inv_EstablishRemoteSocket [OF i, of e] by (simp add: 1)
  have i'': "\<And>b. conn_inv (s'\<lparr>available_' := b\<rparr>)" by (rule conn_inv_dviewI [OF i']) simp
  show ?thesis
    using i i' i'' by (simp add: run_ConnectRemoteSocket_lambda_def 1 Let_def conn_inv_Close)
qed

lemma conn_inv_run_RemoteSocketToOutboundSocket_lambda:
  "conn_inv s \<Longrightarrow> conn_inv (run_RemoteSocketToOutboundSocket_lambda e buffers ec sz s)"
  by (simp add: run_RemoteSocketToOutboundSocket_lambda_def Let_def split_def conn_inv_Close conn_inv_snd)

lemma conn_inv_run_InboundSocketToRemoteSocket_lambda:
  "conn_inv s \<Longrightarrow> conn_inv (run_InboundSocketToRemoteSocket_lambda e buffers n s)"
  by (simp add: run_InboundSocketToRemoteSocket_lambda_def Let_def split_def conn_inv_Close conn_inv_snd)

lemma conn_inv_run_SendToRemoteSocket_lambda:
  "conn_inv s \<Longrightarrow> conn_inv (run_SendToRemoteSocket_lambda e ec sz s)"
  by (simp add: run_SendToRemoteSocket_lambda_def Let_def split_def conn_inv_Close conn_inv_snd)

lemma conn_inv_run_SendToOutboundSocket_lambda:
  "conn_inv s \<Longrightarrow> conn_inv (run_SendToOutboundSocket_lambda e success s)"
  by (simp add: run_SendToOutboundSocket_lambda_def Let_def split_def conn_inv_Close conn_inv_snd)

lemma conn_inv_run_KeepAlivedReadCycle_lambda:
  "conn_inv s \<Longrightarrow> conn_inv (run_KeepAlivedReadCycle_lambda e network n s)"
  by (simp add: run_KeepAlivedReadCycle_lambda_def conn_inv_Close conn_inv_snd)

lemma conn_inv_run_KeepAlivedSendCycle_write_lambda:
  "conn_inv s \<Longrightarrow> conn_inv (run_KeepAlivedSendCycle_write_lambda e network success s)"
  by (simp add: run_KeepAlivedSendCycle_write_lambda_def Let_def split_def conn_inv_Close
      conn_inv_KeepAlivedSendCycle)

lemma run_KeepAlivedSendCycle_timer_lambda_cases:
  assumes s1: "s1 = (if timeout_' s \<noteq> None then ClearTimeout e s else s)"
    and 2: "make_shared_alloc e 64 s1 = (messages, s2)"
    and x: "x = call_WriteAsync network
                  (Some (map (\<lambda>i. RandomAscii (rnd e) (length (trace s2) + i))
                           [0..<nat (RandomNext (rnd e) (length (trace s2)) 8 64)]))
                  0 (RandomNext (rnd e) (length (trace s2)) 8 64)
                  (KeepAlivedSendCycle_write_lambda network)"
  shows "run_KeepAlivedSendCycle_timer_lambda e network s =
           (case messages of
              None \<Rightarrow> Close e s2
            | Some _ \<Rightarrow> if \<not> answer e s2 then Close e (emit x s2) else emit x s2)"
  unfolding run_KeepAlivedSendCycle_timer_lambda_def Let_def s1 [symmetric] 2 prod.case x ..

lemma conn_inv_run_KeepAlivedSendCycle_timer_lambda:
  "conn_inv s \<Longrightarrow> conn_inv (run_KeepAlivedSendCycle_timer_lambda e network s)"
proof -
  assume i: "conn_inv s"
  define s1 where "s1 = (if timeout_' s \<noteq> None then ClearTimeout e s else s)"
  have i1: "conn_inv s1" using i by (simp add: s1_def conn_inv_ClearTimeout)
  obtain messages s2 where 2: "make_shared_alloc e 64 s1 = (messages, s2)"
    by (cases "make_shared_alloc e 64 s1")
  have "dview s2 = dview s1"
    using dview_make_shared_alloc [of e 64 s1] by (simp add: 2)
  with i1 have i2: "conn_inv s2" by (rule conn_inv_dviewI)
  have i3: "\<And>x. \<not> closing x \<Longrightarrow> conn_inv (emit x s2)" by (rule conn_inv_dviewI [OF i2]) simp
  show ?thesis
    unfolding run_KeepAlivedSendCycle_timer_lambda_cases [OF s1_def 2 refl]
    using i2 i3 by (simp add: conn_inv_Close closing_def split: option.splits)
qed

lemma conn_inv_timer_fired: "conn_inv s \<Longrightarrow> conn_inv (s\<lparr>timers := timers s - {h}\<rparr>)"
  by (auto simp: conn_inv_def disposal_inv_def timer_inv_def fired_def)

lemma conn_inv_set_DisposedEvent: "conn_inv s \<Longrightarrow> conn_inv (s\<lparr>DisposedEvent := h\<rparr>)"
  by (simp add: conn_inv_def disposal_inv_def timer_inv_def fired_def)

lemma conn_inv_step: "conn_inv s \<Longrightarrow> conn_inv (step e s a)"
  by (cases a)
    (simp_all add: conn_inv_Listen conn_inv_Close conn_inv_Dispose conn_inv_set_DisposedEvent conn_inv_run_Listen_lambda
      conn_inv_run_ConnectRemoteSocket_lambda conn_inv_run_RemoteSocketToOutboundSocket_lambda
      conn_inv_run_InboundSocketToRemoteSocket_lambda conn_inv_run_SendToRemoteSocket_lambda
      conn_inv_run_SendToOutboundSocket_lambda conn_inv_run_KeepAlivedReadCycle_lambda
      conn_inv_run_KeepAlivedSendCycle_timer_lambda conn_inv_timer_fired
      conn_inv_run_KeepAlivedSendCycle_write_lambda)

lemma conn_inv_run: "conn_inv s \<Longrightarrow> conn_inv (run e s as)"
  unfolding run_def
  by (induction as arbitrary: s) (simp_all add: next_state_def conn_inv_step)

lemma conn_inv_new_Connection: "conn_inv (new_Connection configuration ident inbound outbound)"
  by (simp add: conn_inv_def disposal_inv_def timer_inv_def fired_def new_Connection_def)

subsection \<open>Disposal happens once; one timer is pending\<close>

lemma card_timers: "timers s \<subseteq> set_option (timeout_' s) \<Longrightarrow> card (timers s) \<le> 1"
proof -
  assume a: "timers s \<subseteq> set_option (timeout_' s)"
  have "card (timers s) \<le> card (set_option (timeout_' s))"
    using a by (intro card_mono) simp_all
  also have "\<dots> \<le> 1" by (cases "timeout_' s") simp_all
  finally show ?thesis .
qed

lemma timers_Dispose: "conn_inv s \<Longrightarrow> timers (Dispose e s) = {}"
  using Dispose_dview [of e s]
  by (auto simp: conn_inv_def timer_inv_def dview_def split: if_splits)

lemma timers_timer_lambda:
  assumes i: "conn_inv s"
  shows "timers (run_KeepAlivedSendCycle_timer_lambda e network (s\<lparr>timers := timers s - {h}\<rparr>)) = {}"
proof -
  define s' where "s' = s\<lparr>timers := timers s - {h}\<rparr>"
  have i': "conn_inv s'" unfolding s'_def using i by (rule conn_inv_timer_fired)
  define s1 where "s1 = (if timeout_' s' \<noteq> None then ClearTimeout e s' else s')"
  have i1: "conn_inv s1" using i' by (simp add: s1_def conn_inv_ClearTimeout)
  have t1: "timers s1 = {}"
    using i' timers_ClearTimeout [OF i', of e] by (auto simp: s1_def conn_inv_def timer_inv_def)
  obtain messages s2 where 2: "make_shared_alloc e 64 s1 = (messages, s2)"
    by (cases "make_shared_alloc e 64 s1")
  have d2: "dview s2 = dview s1"
    using dview_make_shared_alloc [of e 64 s1] by (simp add: 2)
  with i1 have i2: "conn_inv s2" by (rule conn_inv_dviewI)
  have t2: "timers s2 = {}" using d2 t1 by (simp add: dview_def)
  have i3: "\<And>x. \<not> closing x \<Longrightarrow> conn_inv (emit x s2)" by (rule conn_inv_dviewI [OF i2]) simp
  have t3: "\<And>x. timers (emit x s2) = {}" using t2 by (simp add: emit_def)
  show ?thesis
    unfolding s'_def [symmetric] run_KeepAlivedSendCycle_timer_lambda_cases [OF s1_def 2 refl]
    using i2 i3 t2 t3
    by (simp add: Close_def timers_Dispose closing_def split: option.splits)
qed

text \<open>
  C7. After every sequence of public calls, assignments to \<open>DisposedEvent\<close> and
  completion handlers on a new Connection, \<open>DisposedEvent\<close> has fired at most once and
  the body of \<open>Dispose\<close> has run at most once, namely exactly when \<open>disposed_\<close> is
  set; one more \<open>Dispose\<close> leaves both counts at most 1, and \<open>Dispose\<close> and
  \<open>Close\<close> are idempotent.
\<close>

theorem Dispose_at_most_once:
  "let s = run e (new_Connection configuration ident inbound outbound) as
   in fired s \<le> 1 \<and> disposals s \<le> 1 \<and> disposed_' s = (disposals s = 1)
      \<and> fired (Dispose e s) \<le> 1 \<and> disposals (Dispose e s) = 1
      \<and> Dispose e (Dispose e s) = Dispose e s
      \<and> Close e (Close e s) = Close e s
      \<and> Close e (Dispose e s) = Dispose e s"
proof -
  define s where "s = run e (new_Connection configuration ident inbound outbound) as"
  have i: "conn_inv s" unfolding s_def by (intro conn_inv_run conn_inv_new_Connection)
  have j: "conn_inv (Dispose e s)" using i by (rule conn_inv_Dispose)
  have d: "disposed_' (Dispose e s)"
    using Dispose_dview [of e s] by (auto simp: dview_def split: if_splits)
  have "fired s \<le> 1 \<and> disposals s \<le> 1 \<and> disposed_' s = (disposals s = 1)"
    using i by (auto simp: conn_inv_def disposal_inv_def)
  moreover have "fired (Dispose e s) \<le> 1 \<and> disposals (Dispose e s) = 1"
    using j d by (auto simp: conn_inv_def disposal_inv_def)
  ultimately show ?thesis
    by (simp add: s_def [symmetric] Let_def Close_def Dispose_idem)
qed

text \<open>
  C9. After every sequence of events on a new Connection at most one keep-alive timer is
  pending, and it is the one \<open>timeout_\<close> refers to. This still holds after
  \<open>KeepAlivedSendCycle\<close>, which clears the previous timer before it schedules a new
  one; no timer is pending after the handler of a fired timer has run, and none after
  \<open>Dispose\<close>.
\<close>

theorem at_most_one_timer:
  "let s = run e (new_Connection configuration ident inbound outbound) as;
       s' = snd (KeepAlivedSendCycle e transmission s)
   in card (timers s) \<le> 1 \<and> timers s \<subseteq> set_option (timeout_' s)
      \<and> card (timers s') \<le> 1 \<and> timers s' \<subseteq> set_option (timeout_' s')
      \<and> timers (step e s (on_timer h network)) = {}
      \<and> timers (Dispose e s) = {}"
proof -
  define s where "s = run e (new_Connection configuration ident inbound outbound) as"
  have i: "conn_inv s" unfolding s_def by (intro conn_inv_run conn_inv_new_Connection)
  have i': "conn_inv (snd (KeepAlivedSendCycle e transmission s))"
    using i by (rule conn_inv_KeepAlivedSendCycle)
  have sub: "\<And>s. conn_inv s \<Longrightarrow> timers s \<subseteq> set_option (timeout_' s)"
    by (simp add: conn_inv_def timer_inv_def)
  show ?thesis
    using sub [OF i] sub [OF i'] card_timers [OF sub [OF i]] card_timers [OF sub [OF i']]
      timers_timer_lambda [OF i] timers_Dispose [OF i]
    by (simp add: s_def [symmetric] Let_def)
qed

lemmas Dispose_defs =
  Close_def Dispose_def Dispose_inbound_def Dispose_outbound_def Dispose_remote_def
  Dispose_resolver_def Dispose_reset_def Dispose_DisposedEvent_def ClearTimeout_def emit_def

lemmas arming_defs =
  EstablishRemoteSocket_def InboundSocketToRemoteSocket_def RemoteSocketToOutboundSocket_def
  KeepAlivedReadCycle_def KeepAlivedSendCycle_def SetTimeout_def GetContext_def answer_def
  make_shared_alloc_def

theorem Dispose_at_most_once_witness:
  "let e = \<lparr>ok = (\<lambda>k. True), ClearTimeout_resets = False,
             ToEndPoint = (\<lambda>ip p. default_endpoint),
             rnd = \<lparr>RandomNext = (\<lambda>k lo hi. lo), RandomAscii = (\<lambda>k. CHR ''q'')\<rparr>\<rparr>;
       s = run e (new_Connection None 1 (Some \<lparr>tid = 1, io_context = Some 0\<rparr>)
                    (Some \<lparr>tid = 2, io_context = Some 0\<rparr>))
             [set_DisposedEvent (Some 5), do_Close, do_Dispose, do_Close]
   in fired s \<le> 1 \<and> disposals s \<le> 1 \<and> disposed_' s
      \<and> trace s = [call_Close \<lparr>tid = 1, io_context = Some 0\<rparr>,
                    call_Close \<lparr>tid = 2, io_context = Some 0\<rparr>,
                    call_ClearTimeout None, fire_DisposedEvent 5]"
proof -
  define e where "e = \<lparr>ok = (\<lambda>k. True), ClearTimeout_resets = False,
             ToEndPoint = (\<lambda>ip p. default_endpoint),
             rnd = \<lparr>RandomNext = (\<lambda>k lo hi. lo), RandomAscii = (\<lambda>k. CHR ''q'')\<rparr>\<rparr>"
  define s where "s = run e (new_Connection None 1 (Some \<lparr>tid = 1, io_context = Some 0\<rparr>)
                    (Some \<lparr>tid = 2, io_context = Some 0\<rparr>))
             [set_DisposedEvent (Some 5), do_Close, do_Dispose, do_Close]"
  have ev: "disposed_' s \<and> trace s = [call_Close \<lparr>tid = 1, io_context = Some 0\<rparr>,
                    call_Close \<lparr>tid = 2, io_context = Some 0\<rparr>,
                    call_ClearTimeout None, fire_DisposedEvent 5]"
    by (simp add: s_def Let_def run_def next_state_def new_Connection_def Dispose_defs)
  have "fired s \<le> 1 \<and> disposals s \<le> 1"
    unfolding s_def
    using Dispose_at_most_once
      [of e None 1 "Some \<lparr>tid = 1, io_context = Some 0\<rparr>" "Some \<lparr>tid = 2, io_context = Some 0\<rparr>"
          "[set_DisposedEvent (Some 5), do_Close, do_Dispose, do_Close]"]
    by (simp only: Let_def)
  with ev show ?thesis
    unfolding Let_def e_def [symmetric] s_def [symmetric] by simp
qed

theorem at_most_one_timer_witness:
  "let e = \<lparr>ok = (\<lambda>k. True), ClearTimeout_resets = False,
             ToEndPoint = (\<lambda>ip p. default_endpoint),
             rnd = \<lparr>RandomNext = (\<lambda>k lo hi. lo), RandomAscii = (\<lambda>k. CHR ''q'')\<rparr>\<rparr>;
       c = \<lparr>Alignment = 1024, Domain = False, IP = ''10.0.0.1'', Port = 80,
             KeepAlived = True, Turbo = True, FastOpen = False\<rparr>;
       t1 = \<lparr>tid = 1, io_context = Some 0\<rparr>;
       t2 = \<lparr>tid = 2, io_context = Some 0\<rparr>;
       s = run e (new_Connection (Some c) 1 (Some t1) (Some t2)) [do_Listen (Some 3)]
   in timers s = {4} \<and> timeout_' s = Some 4 \<and> card (timers s) \<le> 1
      \<and> timers (Dispose e s) = {}"
proof -
  define e where "e = \<lparr>ok = (\<lambda>k. True), ClearTimeout_resets = False,
             ToEndPoint = (\<lambda>ip p. default_endpoint),
             rnd = \<lparr>RandomNext = (\<lambda>k lo hi. lo), RandomAscii = (\<lambda>k. CHR ''q'')\<rparr>\<rparr>"
  define s0 where "s0 = new_Connection
             (Some \<lparr>Alignment = 1024, Domain = False, IP = ''10.0.0.1'', Port = 80,
                    KeepAlived = True, Turbo = True, FastOpen = False\<rparr>)
             1 (Some \<lparr>tid = 1, io_context = Some 0\<rparr>) (Some \<lparr>tid = 2, io_context = Some 0\<rparr>)"
  have r: "run e s0 [do_Listen (Some 3)] = snd (Listen e (Some 3) s0)"
    by (simp add: run_def next_state_def s0_def new_Connection_def)
  have t: "timers (snd (Listen e (Some 3) s0)) = {4}
           \<and> timeout_' (snd (Listen e (Some 3) s0)) = Some 4"
    by (simp add: s0_def e_def Let_def new_Connection_def Listen_def arming_defs UINT8_MAX_def
        ECONNECTION_MSS_default_def ClearTimeout_def emit_def)
  have "card (timers (run e s0 [do_Listen (Some 3)])) \<le> 1
        \<and> timers (Dispose e (run e s0 [do_Listen (Some 3)])) = {}"
    unfolding s0_def
    using at_most_one_timer
      [of e "Some \<lparr>Alignment = 1024, Domain = False, IP = ''10.0.0.1'', Port = 80,
                    KeepAlived = True, Turbo = True, FastOpen = False\<rparr>"
          1 "Some \<lparr>tid = 1, io_context = Some 0\<rparr>" "Some \<lparr>tid = 2, io_context = Some 0\<rparr>"
          "[do_Listen (Some 3)]" None 4 "\<lparr>tid = 1, io_context = Some 0\<rparr>"]
    by (simp only: Let_def)
  with t show ?thesis
    unfolding Let_def e_def [symmetric] s0_def [symmetric] r by simp
qed

subsection \<open>The buffers of \<open>Listen\<close>\<close>

lemma alloc_NewRemoteSocket:
  "buffers_' (snd (NewRemoteSocket e c ctx ep s)) = buffers_' s
   \<and> filter allocating (trace (snd (NewRemoteSocket e c ctx ep s))) = filter allocating (trace s)"
  by (simp add: NewRemoteSocket_def Let_def emit_def allocating_def split: option.splits)

lemma alloc_ConnectRemoteSocket:
  "buffers_' (snd (ConnectRemoteSocket e ep s)) = buffers_' s
   \<and> filter allocating (trace (snd (ConnectRemoteSocket e ep s))) = filter allocating (trace s)"
proof -
  obtain sock s1 where 1: "NewRemoteSocket e (configuration_' s) (GetContext s) ep s = (sock, s1)"
    by (cases "NewRemoteSocket e (configuration_' s) (GetContext s) ep s")
  have "buffers_' s1 = buffers_' s \<and> filter allocating (trace s1) = filter allocating (trace s)"
    using alloc_NewRemoteSocket [of e "configuration_' s" "GetContext s" ep s] by (simp add: 1)
  then show ?thesis
    by (simp add: ConnectRemoteSocket_def 1 emit_def allocating_def split: option.splits)
qed

lemma Listen_allocates:
  assumes g: "\<not> (disposed_' s \<or> buffers_' s \<noteq> None)"
  shows "buffers_' (snd (Listen e network s))
           = (if answer e s then Some (ECONNECTION_MSS s) else None)
         \<and> filter allocating (trace (snd (Listen e network s)))
           = filter allocating (trace s) @ [call_make_shared_alloc (ECONNECTION_MSS s)]"
proof -
  define buffers where "buffers = (if answer e s then Some (ECONNECTION_MSS s) else None)"
  define s0 where "s0 = emit (call_make_shared_alloc (ECONNECTION_MSS s)) s"
  have 0: "make_shared_alloc e (ECONNECTION_MSS s) s = (buffers, s0)"
    by (simp add: make_shared_alloc_def buffers_def s0_def)
  have a0: "filter allocating (trace s0)
            = filter allocating (trace s) @ [call_make_shared_alloc (ECONNECTION_MSS s)]"
    by (simp add: s0_def emit_def allocating_def)
  show ?thesis
  proof (cases network)
    case (Some socket)
    obtain av s3 where
      3: "EstablishRemoteSocket e (s0\<lparr>buffers_' := buffers, remote_' := Some socket\<rparr>) = (av, s3)"
      by (cases "EstablishRemoteSocket e (s0\<lparr>buffers_' := buffers, remote_' := Some socket\<rparr>)")
    have f: "frame s3 = frame (s0\<lparr>buffers_' := buffers, remote_' := Some socket\<rparr>)"
      using frame_EstablishRemoteSocket [of e "s0\<lparr>buffers_' := buffers, remote_' := Some socket\<rparr>"]
      by (simp add: 3)
    have "buffers_' s3 = buffers" and "filter allocating (trace s3) = filter allocating (trace s0)"
      using frame_fields(3,12) [OF f] by simp_all
    then show ?thesis
      by (simp add: Some Listen_Some [OF 0 g 3] a0 buffers_def)
  next
    case None
    define s1 where "s1 = s0\<lparr>buffers_' := buffers\<rparr>"
    define s2 where "s2 = (emit (new_resolver (length (trace s1))) s1)
                            \<lparr>resolver_' := (if answer e s1 then Some (length (trace s1)) else None)\<rparr>"
    have b1: "buffers_' s1 = buffers" and a1: "filter allocating (trace s1) = filter allocating (trace s0)"
      by (simp_all add: s1_def)
    have b2: "buffers_' s2 = buffers" and a2: "filter allocating (trace s2) = filter allocating (trace s0)"
      by (simp_all add: s2_def s1_def emit_def allocating_def)
    have c: "\<And>ep. buffers_' (snd (ConnectRemoteSocket e ep s2)) = buffers
                \<and> filter allocating (trace (snd (ConnectRemoteSocket e ep s2)))
                    = filter allocating (trace s0)"
      using alloc_ConnectRemoteSocket [of e _ s2] by (simp add: b2 a2)
    show ?thesis
      unfolding None Listen_None [OF 0 g s1_def s2_def]
      using b1 a1 b2 a2 c
      by (simp add: a0 buffers_def emit_def allocating_def split: option.splits)
  qed
qed

text \<open>
  C6 as stated fails: with the alignment 510, which is below 512, the constructor does
  not leave MSS at its default 65535, it sets MSS to 510.
\<close>

theorem MSS_alignment_510_counterexample:
  "ECONNECTION_MSS
     (new_Connection
        (Some \<lparr>Alignment = 510, Domain = False, IP = ''10.0.0.1'', Port = 80,
               KeepAlived = False, Turbo = False, FastOpen = False\<rparr>) 1 None None) = 510
   \<and> (510 :: int) < 512
   \<and> ECONNECTION_MSS_default = 65535"
  by (simp add: new_Connection_def UINT8_MAX_def ECONNECTION_MSS_default_def)

text \<open>
  C6, amended. The default of MSS is 65535, and the alignment of the configuration
  overrides it if and only if it lies between 510 (\<open>UINT8_MAX << 1\<close>) and 65535; without
  a configuration and outside that range the constructor leaves MSS at 65535. \<open>Listen\<close>
  on the new Connection makes one allocation, of exactly MSS bytes, and \<open>buffers_\<close> is
  what the allocation returned.
\<close>

theorem MSS_and_Listen_allocation:
  "ECONNECTION_MSS (new_Connection configuration ident inbound outbound)
     = (case configuration of
          None \<Rightarrow> 65535
        | Some c \<Rightarrow> if 510 \<le> Alignment c \<and> Alignment c \<le> 65535 then Alignment c else 65535)
   \<and> (let s = new_Connection configuration ident inbound outbound;
          s' = snd (Listen e network s)
      in filter allocating (trace s') = [call_make_shared_alloc (ECONNECTION_MSS s)]
         \<and> buffers_' s' = (if ok e 0 then Some (ECONNECTION_MSS s) else None))"
proof -
  define s where "s = new_Connection configuration ident inbound outbound"
  have g: "\<not> (disposed_' s \<or> buffers_' s \<noteq> None)" and t: "trace s = []"
    by (simp_all add: s_def new_Connection_def)
  have m: "ECONNECTION_MSS s
     = (case configuration of
          None \<Rightarrow> 65535
        | Some c \<Rightarrow> if 510 \<le> Alignment c \<and> Alignment c \<le> 65535 then Alignment c else 65535)"
    by (simp add: s_def new_Connection_def UINT8_MAX_def ECONNECTION_MSS_default_def Let_def
        split: option.splits)
  show ?thesis
    using Listen_allocates [OF g, of e network] m
    by (simp add: s_def [symmetric] Let_def t answer_def)
qed

theorem MSS_and_Listen_allocation_witness:
  "ECONNECTION_MSS
     (new_Connection
        (Some \<lparr>Alignment = 1024, Domain = False, IP = ''10.0.0.1'', Port = 80,
               KeepAlived = False, Turbo = False, FastOpen = False\<rparr>) 1 None None) = 1024
   \<and> ECONNECTION_MSS
     (new_Connection
        (Some \<lparr>Alignment = 509, Domain = False, IP = ''10.0.0.1'', Port = 80,
               KeepAlived = False, Turbo = False, FastOpen = False\<rparr>) 1 None None) = 65535
   \<and> buffers_' (snd (Listen
        \<lparr>ok = (\<lambda>k. True), ClearTimeout_resets = False,
          ToEndPoint = (\<lambda>ip p. default_endpoint),
          rnd = \<lparr>RandomNext = (\<lambda>k lo hi. lo), RandomAscii = (\<lambda>k. CHR ''q'')\<rparr>\<rparr> None
        (new_Connection
          (Some \<lparr>Alignment = 1024, Domain = False, IP = ''10.0.0.1'', Port = 80,
               KeepAlived = False, Turbo = False, FastOpen = False\<rparr>) 1 None None))) = Some 1024"
  using MSS_and_Listen_allocation
    [of "Some \<lparr>Alignment = 1024, Domain = False, IP = ''10.0.0.1'', Port = 80,
               KeepAlived = False, Turbo = False, FastOpen = False\<rparr>" 1 None None
        "\<lparr>ok = (\<lambda>k. True), ClearTimeout_resets = False,
          ToEndPoint = (\<lambda>ip p. default_endpoint),
          rnd = \<lparr>RandomNext = (\<lambda>k lo hi. lo), RandomAscii = (\<lambda>k. CHR ''q'')\<rparr>\<rparr>" None]
    MSS_and_Listen_allocation
    [of "Some \<lparr>Alignment = 509, Domain = False, IP = ''10.0.0.1'', Port = 80,
               KeepAlived = False, Turbo = False, FastOpen = False\<rparr>" 1 None None
        "\<lparr>ok = (\<lambda>k. True), ClearTimeout_resets = False,
          ToEndPoint = (\<lambda>ip p. default_endpoint),
          rnd = \<lparr>RandomNext = (\<lambda>k lo hi. lo), RandomAscii = (\<lambda>k. CHR ''q'')\<rparr>\<rparr>" None]
  by (simp add: Let_def)

subsection \<open>Calls that are refused\<close>





text \<open>
  C10. When \<open>Listen\<close> is called with a network on a Connection that is not disposed
  and has no buffers, and \<open>EstablishRemoteSocket\<close> returns false on the Connection with
  the allocated buffers and the adopted remote, then \<open>Listen\<close> returns false and the
  Connection is not disposed: \<open>disposed_\<close> stays false, \<open>remote_\<close> is the adopted
  network, \<open>buffers_\<close> is what the allocation returned, \<open>DisposedEvent\<close> has not
  fired, the body of \<open>Dispose\<close> has not run, and nothing has been closed.
\<close>

theorem Listen_network_arming_fails:
  assumes "\<not> disposed_' s" and "buffers_' s = None"
    and "armed = (emit (call_make_shared_alloc (ECONNECTION_MSS s)) s)
                   \<lparr>buffers_' := (if answer e s then Some (ECONNECTION_MSS s) else None),
                    remote_' := Some network\<rparr>"
    and "\<not> fst (EstablishRemoteSocket e armed)"
    and "s' = snd (Listen e (Some network) s)"
  shows "fst (Listen e (Some network) s) = False
         \<and> disposed_' s' = False
         \<and> remote_' s' = Some network
         \<and> buffers_' s' = (if answer e s then Some (ECONNECTION_MSS s) else None)
         \<and> DisposedEvent s' = DisposedEvent s
         \<and> fired s' = fired s
         \<and> disposals s' = disposals s
         \<and> filter closing (trace s') = filter closing (trace s)"
proof -
  define buffers where "buffers = (if answer e s then Some (ECONNECTION_MSS s) else None)"
  define s0 where "s0 = emit (call_make_shared_alloc (ECONNECTION_MSS s)) s"
  have 0: "make_shared_alloc e (ECONNECTION_MSS s) s = (buffers, s0)"
    by (simp add: make_shared_alloc_def buffers_def s0_def)
  have g: "\<not> (disposed_' s \<or> buffers_' s \<noteq> None)" using assms(1,2) by simp
  have a: "armed = s0\<lparr>buffers_' := buffers, remote_' := Some network\<rparr>"
    by (simp add: assms(3) s0_def buffers_def)
  obtain av s3 where 3: "EstablishRemoteSocket e (s0\<lparr>buffers_' := buffers, remote_' := Some network\<rparr>) = (av, s3)"
    by (cases "EstablishRemoteSocket e (s0\<lparr>buffers_' := buffers, remote_' := Some network\<rparr>)")
  have av: "av = False" using assms(4) by (simp add: a 3)
  have L: "Listen e (Some network) s = (False, if crashed s3 then s3 else s3\<lparr>available_' := False\<rparr>)"
    using Listen_Some [OF 0 g 3] by (simp add: av)
  have f: "frame s3 = frame (s0\<lparr>buffers_' := buffers, remote_' := Some network\<rparr>)"
    using frame_EstablishRemoteSocket [of e "s0\<lparr>buffers_' := buffers, remote_' := Some network\<rparr>"]
    by (simp add: 3)
  have f': "frame s' = frame (s0\<lparr>buffers_' := buffers, remote_' := Some network\<rparr>)"
    using f by (simp add: assms(5) L)
  have f0: "filter closing (trace s0) = filter closing (trace s)"
    by (simp add: s0_def emit_def closing_def)
  have "fired s' = fired s"
    unfolding fired_closing frame_fields(11) [OF f'] by (simp add: f0)
  then show ?thesis
    using frame_fields(1,2,3,4,9,11) [OF f'] assms(1)
    by (simp add: L s0_def emit_def buffers_def f0 [unfolded s0_def emit_def, simplified])
qed

theorem Listen_network_arming_fails_witness:
  "let e = \<lparr>ok = (\<lambda>k. True), ClearTimeout_resets = False,
             ToEndPoint = (\<lambda>ip p. default_endpoint),
             rnd = \<lparr>RandomNext = (\<lambda>k lo hi. lo), RandomAscii = (\<lambda>k. CHR ''q'')\<rparr>\<rparr>;
       c = \<lparr>Alignment = 1024, Domain = False, IP = ''10.0.0.1'', Port = 80,
             KeepAlived = True, Turbo = True, FastOpen = False\<rparr>;
       s = new_Connection (Some c) 1 None (Some \<lparr>tid = 2, io_context = Some 0\<rparr>);
       armed = (emit (call_make_shared_alloc (ECONNECTION_MSS s)) s)
                 \<lparr>buffers_' := (if answer e s then Some (ECONNECTION_MSS s) else None),
                  remote_' := Some 3\<rparr>;
       s' = snd (Listen e (Some 3) s)
   in \<not> disposed_' s \<and> buffers_' s = None \<and> \<not> fst (EstablishRemoteSocket e armed)
      \<and> fst (Listen e (Some 3) s) = False
      \<and> disposed_' s' = False \<and> remote_' s' = Some 3 \<and> buffers_' s' = Some 1024
      \<and> fired s' = 0 \<and> disposals s' = 0"
proof -
  define e where "e = \<lparr>ok = (\<lambda>k. True), ClearTimeout_resets = False,
             ToEndPoint = (\<lambda>ip p. default_endpoint),
             rnd = \<lparr>RandomNext = (\<lambda>k lo hi. lo), RandomAscii = (\<lambda>k. CHR ''q'')\<rparr>\<rparr>"
  define s where "s = new_Connection
       (Some \<lparr>Alignment = 1024, Domain = False, IP = ''10.0.0.1'', Port = 80,
             KeepAlived = True, Turbo = True, FastOpen = False\<rparr>)
       1 None (Some \<lparr>tid = 2, io_context = Some 0\<rparr>)"
  define armed where "armed = (emit (call_make_shared_alloc (ECONNECTION_MSS s)) s)
                 \<lparr>buffers_' := (if answer e s then Some (ECONNECTION_MSS s) else None),
                  remote_' := Some 3\<rparr>"
  have g: "\<not> disposed_' s" "buffers_' s = None" "ECONNECTION_MSS s = 1024" "answer e s"
    "fired s = 0" "disposals s = 0"
    by (simp_all add: s_def e_def new_Connection_def UINT8_MAX_def ECONNECTION_MSS_default_def
        answer_def fired_def)
  have i: "inbound_' armed = None" by (simp add: armed_def s_def new_Connection_def emit_def)
  have h: "\<not> fst (EstablishRemoteSocket e armed)"
    by (simp add: EstablishRemoteSocket_def InboundSocketToRemoteSocket_def i)
  show ?thesis
    unfolding Let_def e_def [symmetric] s_def [symmetric] armed_def [symmetric]
    using Listen_network_arming_fails [OF g(1) g(2) armed_def h refl] g h
    by simp
qed

end
